theory Spec2Isabelle
  imports Main
begin

section \<open>JavaScript values\<close>

text \<open>
  The legacy configuration is the result of parsing \<^verbatim>\<open>cypress.json\<close>: a JSON object
  (\<^verbatim>\<open>Record<string, any>\<close>). Objects are association lists in insertion order; a
  property that is not there reads as \<^verbatim>\<open>undefined\<close>. JSON numbers are modelled as
  integers.
\<close>

datatype jsval =
    JUndefined
  | JNull
  | JBool bool
  | JNum int
  | JStr string
  | JArr "jsval list"
  | JObj "(string \<times> jsval) list"

type_synonym obj = "(string \<times> jsval) list"

text \<open>ToBoolean: what \<^verbatim>\<open>x ? a : b\<close>, \<^verbatim>\<open>x && y\<close> and \<^verbatim>\<open>if (x)\<close> test.\<close>

fun truthy :: "jsval \<Rightarrow> bool" where
  "truthy JUndefined = False"
| "truthy JNull = False"
| "truthy (JBool b) = b"
| "truthy (JNum n) = (n \<noteq> 0)"
| "truthy (JStr s) = (s \<noteq> [])"
| "truthy (JArr xs) = True"
| "truthy (JObj kvs) = True"

text \<open>Property read \<^verbatim>\<open>o.k\<close>, and a destructuring default \<^verbatim>\<open>{ k = d } = o\<close>, which
  applies exactly when the property reads as \<^verbatim>\<open>undefined\<close>. The generator reads a
  configuration at fixed keys only, none of them a name that \<^verbatim>\<open>Object.prototype\<close> has, so
  that the object's own properties decide.\<close>

definition obj_get :: "obj \<Rightarrow> string \<Rightarrow> jsval" where
  "obj_get kvs k = (case map_of kvs k of None \<Rightarrow> JUndefined | Some v \<Rightarrow> v)"

definition with_default :: "jsval \<Rightarrow> jsval \<Rightarrow> jsval" where
  "with_default v d = (if v = JUndefined then d else v)"

text \<open>Property write \<^verbatim>\<open>o[k] = v\<close> (and a property of an object literal after a spread):
  an existing key keeps its place, a new key goes last.\<close>

fun obj_set :: "'k \<Rightarrow> 'v \<Rightarrow> ('k \<times> 'v) list \<Rightarrow> ('k \<times> 'v) list" where
  "obj_set k v [] = [(k, v)]"
| "obj_set k v (p # ps) = (if fst p = k then (k, v) # ps else p # obj_set k v ps)"

text \<open>The rest of a destructuring pattern, \<^verbatim>\<open>{ a, b, ...rest } = o\<close>: the properties of
  \<^verbatim>\<open>o\<close> whose keys the pattern does not name.\<close>

definition obj_rest :: "'k list \<Rightarrow> ('k \<times> 'v) list \<Rightarrow> ('k \<times> 'v) list" where
  "obj_rest ks kvs = filter (\<lambda>p. fst p \<notin> set ks) kvs"

subsection \<open>ToString, as a template literal applies it\<close>

definition digit_char :: "nat \<Rightarrow> char" where
  "digit_char d = char_of (48 + d)"

function show_nat :: "nat \<Rightarrow> string" where
  "show_nat n = (if n < 10 then [digit_char n] else show_nat (n div 10) @ [digit_char (n mod 10)])"
  by pat_completeness auto
termination
  by (relation "measure id") auto

definition show_int :: "int \<Rightarrow> string" where
  "show_int i = (if i < 0 then CHR ''-'' # show_nat (nat (- i)) else show_nat (nat i))"

fun intercalate :: "'a list \<Rightarrow> 'a list list \<Rightarrow> 'a list" where
  "intercalate sep [] = []"
| "intercalate sep [x] = x"
| "intercalate sep (x # y # ys) = x @ sep @ intercalate sep (y # ys)"

fun to_string :: "jsval \<Rightarrow> string" where
  "to_string JUndefined = ''undefined''"
| "to_string JNull = ''null''"
| "to_string (JBool b) = (if b then ''true'' else ''false'')"
| "to_string (JNum n) = show_int n"
| "to_string (JStr s) = s"
| "to_string (JArr xs) =
     intercalate '','' (map (\<lambda>x. if x = JUndefined \<or> x = JNull then [] else to_string x) xs)"
| "to_string (JObj kvs) = ''[object Object]''"

section \<open>JavaScript strings\<close>

text \<open>\<^verbatim>\<open>String.prototype.includes\<close>, \<^verbatim>\<open>endsWith\<close>, \<^verbatim>\<open>trim\<close> (of the ASCII white space; a
  character is a byte) and \<^verbatim>\<open>slice(1, -1)\<close>.\<close>

fun is_prefix :: "string \<Rightarrow> string \<Rightarrow> bool" where
  "is_prefix [] s = True"
| "is_prefix (c # cs) [] = False"
| "is_prefix (c # cs) (d # ds) = (c = d \<and> is_prefix cs ds)"

fun js_includes :: "string \<Rightarrow> string \<Rightarrow> bool" where
  "js_includes [] sub = (sub = [])"
| "js_includes (c # cs) sub = (is_prefix sub (c # cs) \<or> js_includes cs sub)"

definition endsWith :: "string \<Rightarrow> string \<Rightarrow> bool" where
  "endsWith s e = is_prefix (rev e) (rev s)"

definition is_space :: "char \<Rightarrow> bool" where
  "is_space c = (c \<in> set [CHR '' '', CHR 0x09, CHR 0x0A, CHR 0x0B, CHR 0x0C, CHR 0x0D])"

definition trim :: "string \<Rightarrow> string" where
  "trim s = rev (dropWhile is_space (rev (dropWhile is_space s)))"

definition slice_1_m1 :: "string \<Rightarrow> string" where
  "slice_1_m1 s = butlast (tl s)"

text \<open>
  \<^verbatim>\<open>s.replace(pattern, replacement)\<close> with a string pattern: only the first occurrence
  is replaced, and in the replacement a dollar sign followed by a dollar sign, an
  ampersand, a backquote or a quote stands for a dollar sign, the match, the text
  before the match and the text after it. \<open>split_first\<close> finds the first occurrence:
  the text before it and the text after it.
\<close>

fun split_first :: "string \<Rightarrow> string \<Rightarrow> (string \<times> string) option" where
  "split_first pat [] = (if pat = [] then Some ([], []) else None)"
| "split_first pat (c # cs) =
     (if is_prefix pat (c # cs) then Some ([], drop (length pat) (c # cs))
      else (case split_first pat cs of
              None \<Rightarrow> None
            | Some (pre, post) \<Rightarrow> Some (c # pre, post)))"

fun get_substitution :: "string \<Rightarrow> string \<Rightarrow> string \<Rightarrow> string \<Rightarrow> string" where
  "get_substitution matched pre post [] = []"
| "get_substitution matched pre post [c] = [c]"
| "get_substitution matched pre post (c # d # r) =
     (if c = CHR ''$'' \<and> d = CHR ''$'' then CHR ''$'' # get_substitution matched pre post r
      else if c = CHR ''$'' \<and> d = CHR ''&'' then matched @ get_substitution matched pre post r
      else if c = CHR ''$'' \<and> d = CHR 0x60 then pre @ get_substitution matched pre post r
      else if c = CHR ''$'' \<and> d = CHR 0x27 then post @ get_substitution matched pre post r
      else c # get_substitution matched pre post (d # r))"

definition js_replace :: "string \<Rightarrow> string \<Rightarrow> string \<Rightarrow> string" where
  "js_replace s pat rep =
     (case split_first pat s of
        None \<Rightarrow> s
      | Some (pre, post) \<Rightarrow> pre @ get_substitution pat pre post rep @ post)"

section \<open>Paths\<close>

text \<open>
  The functions of Node's \<^verbatim>\<open>path\<close> module that the generator imports (\<^verbatim>\<open>basename\<close>,
  \<^verbatim>\<open>dirname\<close>, \<^verbatim>\<open>extname\<close>), in their POSIX form. The last segment of a path is what
  stands after its last slash, trailing slashes apart.
\<close>

definition is_slash :: "char \<Rightarrow> bool" where
  "is_slash c = (c = CHR ''/'')"

definition last_segment :: "string \<Rightarrow> string" where
  "last_segment p = rev (takeWhile (\<lambda>c. \<not> is_slash c) (dropWhile is_slash (rev p)))"

definition basename :: "string \<Rightarrow> string" where
  "basename p = last_segment p"

text \<open>\<^verbatim>\<open>extname(p)\<close>: from the last dot of the last segment, unless that dot is the
  segment's first character or the segment is \<^verbatim>\<open>..\<close>.\<close>

definition extname :: "string \<Rightarrow> string" where
  "extname p =
     (let seg = last_segment p;
          ext = rev (takeWhile (\<lambda>c. c \<noteq> CHR ''.'') (rev seg))
      in if CHR ''.'' \<notin> set seg \<or> length ext + 1 = length seg \<or> seg = ''..'' then []
         else CHR ''.'' # ext)"

text \<open>\<^verbatim>\<open>basename(p, suffix)\<close>: the last segment without the suffix, when the segment ends
  with it and is longer. (A segment that is itself the end of a longer suffix keeps
  the path's trailing slashes, as Node returns it.)\<close>

definition basename_ext :: "string \<Rightarrow> string \<Rightarrow> string" where
  "basename_ext p suffix =
     (let seg = last_segment p in
      if suffix = [] \<or> length p < length suffix then seg
      else if suffix = p then []
      else if endsWith seg suffix then
        (if length seg = length suffix then seg else take (length seg - length suffix) seg)
      else if endsWith suffix seg then seg @ takeWhile is_slash (rev p)
      else seg)"

definition dirname :: "string \<Rightarrow> string" where
  "dirname p =
     (if p = [] then ''.''
      else
        let hasRoot = is_slash (hd p);
            r = dropWhile (\<lambda>c. \<not> is_slash c) (dropWhile is_slash (rev (tl p)))
        in if r = [] then (if hasRoot then ''/'' else ''.'')
           else if hasRoot \<and> length r = 1 then ''//''
           else take (length r) p)"

text \<open>
  Modelled from the spec: \<^verbatim>\<open>joinPathFragments\<close> of the devkit, which the spec writes
  \<^verbatim>\<open>a/b\<close>. It is Node's \<^verbatim>\<open>path.join\<close>: the non-empty fragments joined by slashes, and
  the result normalised (empty and \<^verbatim>\<open>.\<close> segments dropped, \<^verbatim>\<open>..\<close> resolved against the
  segment before it). Windows separators and drive letters are outside the model.
\<close>

fun split_slash :: "string \<Rightarrow> string list" where
  "split_slash [] = [[]]"
| "split_slash (c # cs) =
     (if is_slash c then [] # split_slash cs
      else (case split_slash cs of [] \<Rightarrow> [[c]] | seg # segs \<Rightarrow> (c # seg) # segs))"

fun normalize_segments :: "bool \<Rightarrow> string list \<Rightarrow> string list \<Rightarrow> string list" where
  "normalize_segments allowAboveRoot res [] = res"
| "normalize_segments allowAboveRoot res (seg # segs) =
     (if seg = [] \<or> seg = ''.'' then normalize_segments allowAboveRoot res segs
      else if seg = ''..'' then
        (if res \<noteq> [] \<and> last res \<noteq> ''..''
         then normalize_segments allowAboveRoot (butlast res) segs
         else if allowAboveRoot then normalize_segments allowAboveRoot (res @ [''..'']) segs
         else normalize_segments allowAboveRoot res segs)
      else normalize_segments allowAboveRoot (res @ [seg]) segs)"

definition path_normalize :: "string \<Rightarrow> string" where
  "path_normalize p =
     (if p = [] then ''.''
      else
        let isAbsolute = is_slash (hd p);
            trailingSeparator = is_slash (last p);
            q = intercalate ''/'' (normalize_segments (\<not> isAbsolute) [] (split_slash p))
        in if q = [] then (if isAbsolute then ''/'' else if trailingSeparator then ''./'' else ''.'')
           else (if isAbsolute then ''/'' else []) @ q @ (if trailingSeparator then ''/'' else []))"

definition path_join :: "string list \<Rightarrow> string" where
  "path_join fragments =
     (let joined = intercalate ''/'' (filter (\<lambda>f. f \<noteq> []) fragments)
      in if joined = [] then ''.'' else path_normalize joined)"

definition joinPathFragments :: "string list \<Rightarrow> string" where
  "joinPathFragments fragments = path_join fragments"

section \<open>The virtual file tree and the logger\<close>

text \<open>
  Modelled from the spec: the virtual file tree of the devkit (\<^verbatim>\<open>Tree\<close>), which the spec
  gives as \<^verbatim>\<open>exists\<close>, \<^verbatim>\<open>read\<close>, \<^verbatim>\<open>write\<close>, \<^verbatim>\<open>delete\<close>, \<^verbatim>\<open>rename\<close> (file-level only)
  and \<^verbatim>\<open>children\<close>. The tree holds files, each a path with its content; a directory is
  there through the files under it. The state also keeps the calls made to the tree's
  mutators, in order, and what was given to the logger.
\<close>

datatype error = TypeError | SyntaxError | FileSystemInconsistency string | ParseError

datatype tree_call = Rename string string | Write string string | Delete string

datatype log_entry = Warn string | Info string

record world =
  files :: "(string \<times> string) list"
  calls :: "tree_call list"
  logs :: "log_entry list"

definition seq :: "error + 'a \<Rightarrow> ('a \<Rightarrow> error + 'b) \<Rightarrow> error + 'b" where
  "seq r f = (case r of Inl e \<Rightarrow> Inl e | Inr x \<Rightarrow> f x)"

definition under :: "string \<Rightarrow> string \<Rightarrow> bool" where
  "under dir p = is_prefix (dir @ ''/'') p"

definition tree_read :: "world \<Rightarrow> string \<Rightarrow> string option" where
  "tree_read w p = map_of (files w) p"

definition tree_children :: "world \<Rightarrow> string \<Rightarrow> string list" where
  "tree_children w dir =
     remdups (map (\<lambda>q. takeWhile (\<lambda>c. \<not> is_slash c) (drop (length dir + 1) (fst q)))
                  (filter (\<lambda>q. under dir (fst q)) (files w)))"

definition tree_exists :: "world \<Rightarrow> string \<Rightarrow> bool" where
  "tree_exists w p = (tree_read w p \<noteq> None \<or> tree_children w p \<noteq> [])"

definition tree_write :: "string \<Rightarrow> string \<Rightarrow> world \<Rightarrow> world" where
  "tree_write p content w =
     w\<lparr>files := obj_set p content (files w), calls := calls w @ [Write p content]\<rparr>"

definition tree_delete :: "string \<Rightarrow> world \<Rightarrow> world" where
  "tree_delete p w =
     w\<lparr>files := filter (\<lambda>q. fst q \<noteq> p \<and> \<not> under p (fst q)) (files w),
       calls := calls w @ [Delete p]\<rparr>"

text \<open>Renaming a path that holds no file is the spec's FileSystemInconsistency; renaming
  a path to itself changes nothing.\<close>

definition tree_rename :: "string \<Rightarrow> string \<Rightarrow> world \<Rightarrow> error + world" where
  "tree_rename from to w =
     (case tree_read w from of
        None \<Rightarrow> Inl (FileSystemInconsistency from)
      | Some content \<Rightarrow>
          Inr (w\<lparr>files := (if from = to then files w
                            else obj_set to content (filter (\<lambda>q. fst q \<noteq> from) (files w))),
                  calls := calls w @ [Rename from to]\<rparr>))"

definition logger_warn :: "string \<Rightarrow> world \<Rightarrow> world" where
  "logger_warn msg w = w\<lparr>logs := logs w @ [Warn msg]\<rparr>"

definition logger_info :: "string \<Rightarrow> world \<Rightarrow> world" where
  "logger_info msg w = w\<lparr>logs := logs w @ [Info msg]\<rparr>"

section \<open>The project\<close>

text \<open>\<^verbatim>\<open>ProjectConfiguration\<close>: \<^verbatim>\<open>sourceRoot\<close>, \<^verbatim>\<open>targets\<close> and a target's \<^verbatim>\<open>options\<close> are
  optional; the executor's option \<^verbatim>\<open>cypressConfig\<close> is a string when it is there.\<close>

record target_options =
  cypressConfig :: "string option"

record target_configuration =
  executor :: string
  options :: "target_options option"

record project_configuration =
  root :: string
  sourceRoot :: "string option"
  targets :: "(string \<times> target_configuration) list option"

section \<open>verifyProjectForUpgrade\<close>

record upgrade_check =
  shouldUpgrade :: bool
  cypressConfigPathJson :: "string option"
  cypressConfigPathTs :: "string option"

definition upgrade_warning :: string where
  "upgrade_warning =
     ''Please upgrade to Cypress version 8 before trying to convert the project to Cypress version 10.''
     @ [CHR 0x0A]
     @ ''https://docs.cypress.io/guides/references/migration-guide#Migrating-to-Cypress-8-0''"

text \<open>
  \<^verbatim>\<open>projectConfig.targets?.[target]\<close>: a property read on the plain object of the
  targets. It finds the project's own target of that name, and otherwise, for a name that
  \<^verbatim>\<open>Object.prototype\<close> has, the inherited property (a function, or for \<^verbatim>\<open>__proto__\<close> the
  prototype itself): a truthy value that has no \<^verbatim>\<open>options\<close> and no \<^verbatim>\<open>executor\<close>.
\<close>

definition object_prototype_keys :: "string list" where
  "object_prototype_keys =
     [''constructor'', ''__proto__'', ''hasOwnProperty'', ''isPrototypeOf'',
      ''propertyIsEnumerable'', ''toLocaleString'', ''toString'', ''valueOf'',
      ''__defineGetter__'', ''__defineSetter__'', ''__lookupGetter__'', ''__lookupSetter__'']"

datatype target_lookup = Own_target target_configuration | Inherited_property | No_property

definition lookup_target :: "project_configuration \<Rightarrow> string \<Rightarrow> target_lookup" where
  "lookup_target projectConfig target =
     (case targets projectConfig of
        None \<Rightarrow> No_property
      | Some ts \<Rightarrow>
          (case map_of ts target of
             Some tc \<Rightarrow> Own_target tc
           | None \<Rightarrow>
               if target \<in> set object_prototype_keys then Inherited_property else No_property))"

text \<open>\<^verbatim>\<open>targets[target]?.options?.cypressConfig\<close> and \<^verbatim>\<open>targets[target].executor\<close>, on what
  the property read found.\<close>

definition declared_cypressConfig :: "target_configuration \<Rightarrow> string option" where
  "declared_cypressConfig tc = (case options tc of None \<Rightarrow> None | Some opts \<Rightarrow> cypressConfig opts)"

fun found_cypressConfig :: "target_lookup \<Rightarrow> string option" where
  "found_cypressConfig (Own_target tc) = declared_cypressConfig tc"
| "found_cypressConfig found = None"

fun found_executor :: "target_lookup \<Rightarrow> string option" where
  "found_executor (Own_target tc) = Some (executor tc)"
| "found_executor found = None"

text \<open>\<open>installedCypressVersion\<close> is what \<^verbatim>\<open>installedCypressVersion()\<close> returns: the major
  version of the installed runner.\<close>

definition verifyProjectForUpgrade ::
  "int \<Rightarrow> world \<Rightarrow> project_configuration \<Rightarrow> string \<Rightarrow> upgrade_check \<times> world" where
  "verifyProjectForUpgrade installedCypressVersion tree projectConfig target =
     (let found = lookup_target projectConfig target in
      if found = No_property then
        (\<lparr>shouldUpgrade = False, cypressConfigPathJson = None, cypressConfigPathTs = None\<rparr>,
         tree)
      else
        let pathJson =
              (case found_cypressConfig found of
                 None \<Rightarrow> joinPathFragments [root projectConfig, ''cypress.json'']
               | Some c \<Rightarrow>
                   if c \<noteq> [] then c
                   else joinPathFragments [root projectConfig, ''cypress.json'']);
            pathTs = joinPathFragments [root projectConfig, ''cypress.config.ts'']
        in if installedCypressVersion < 8 then
             (\<lparr>shouldUpgrade = False, cypressConfigPathJson = Some pathJson,
               cypressConfigPathTs = Some pathTs\<rparr>,
              logger_warn upgrade_warning tree)
           else
             (\<lparr>shouldUpgrade =
                 (found_executor found = Some ''@nrwl/cypress:cypress''
                  \<and> tree_exists tree pathJson \<and> \<not> tree_exists tree pathTs),
               cypressConfigPathJson = Some pathJson, cypressConfigPathTs = Some pathTs\<rparr>,
              tree))"

section \<open>createNewCypressConfig\<close>

text \<open>The new configuration is \<^verbatim>\<open>{ baseUrl?, e2e: {...} }\<close>.\<close>

record new_config =
  baseUrl :: "jsval option"
  e2e :: obj

record cypress_configs =
  cypressConfigTs :: new_config
  cypressConfigJson :: obj

text \<open>\<open>readJson\<close> is the devkit's reader of a JSON file in the tree; malformed JSON is
  its error. \<^verbatim>\<open>joinPathFragments\<close> throws a TypeError on a source root that is not
  there.\<close>

definition createNewCypressConfig ::
  "(world \<Rightarrow> string \<Rightarrow> error + obj) \<Rightarrow> world \<Rightarrow> project_configuration \<Rightarrow> string
   \<Rightarrow> error + cypress_configs" where
  "createNewCypressConfig readJson tree projectConfig pathJson =
     seq (readJson tree pathJson) (\<lambda>configJson.
       let baseUrl' = with_default (obj_get configJson ''baseUrl'') JNull;
           integrationFolder = with_default (obj_get configJson ''integrationFolder'') (JStr ''src/e2e'');
           supportFile = with_default (obj_get configJson ''supportFile'') (JStr ''src/support/e2e.ts'');
           restOfConfig =
             obj_rest [''baseUrl'', ''modifyObstructiveCode'', ''integrationFolder'', ''supportFile'']
               configJson
       in case sourceRoot projectConfig of
            None \<Rightarrow> Inl TypeError
          | Some src \<Rightarrow>
              Inr \<lparr>cypressConfigTs =
                     \<lparr>baseUrl = (if truthy baseUrl' then Some baseUrl' else None),
                      e2e =
                        obj_set ''integrationFolder''
                          (if tree_exists tree (joinPathFragments [src, ''integration''])
                           then JStr ''src/e2e'' else integrationFolder)
                          (obj_set ''supportFile''
                             (if truthy supportFile
                                 \<and> tree_exists tree (joinPathFragments [src, ''support'', ''index.ts''])
                              then JStr ''src/support/e2e.ts'' else supportFile)
                             (obj_set ''specPattern'' (JStr ''src/e2e/**/*.cy.{js,jsx,ts,tsx}'')
                                restOfConfig))\<rparr>,
                   cypressConfigJson = configJson\<rparr>)"

section \<open>updateImports\<close>

text \<open>
  Modelled from the spec: the search and replace over string literals
  (\<^verbatim>\<open>tsquery.replace\<close>), which the spec gives as the capability "find string literals
  matching a suffix pattern and transform their text". \<open>parse\<close> is the parser: it cuts a
  source text into its string literals, each with its source text (delimiters
  included) and its value (\<^verbatim>\<open>node.text\<close>), and the text between them. A matched
  literal's source text is replaced by what the replacer returns for it.

  The generator's selector is \<^verbatim>\<open>StringLiteral[value=/leaf$/]\<close>, with the leaf put into the
  regular expression as it is. For a leaf of letters, digits, hyphens and underscores
  the expression has no special character but the final \<^verbatim>\<open>$\<close>, and the selector "matches
  any string-literal token whose textual value ends with" the leaf. Every other
  selector is left to \<open>engine\<close>, the query library's own reading of a selector: the test
  it makes of a literal's value, or its error for a selector it cannot read.
\<close>

datatype node = StringLiteral string string | OtherText string

definition endOfImportSelector :: "string \<Rightarrow> string" where
  "endOfImportSelector oldImportPath = ''StringLiteral[value=/'' @ oldImportPath @ ''$/]''"

definition plain_char :: "char \<Rightarrow> bool" where
  "plain_char c =
     (c \<in> set ''abcdefghijklmnopqrstuvwxyzABCDEFGHIJKLMNOPQRSTUVWXYZ0123456789_-'')"

definition plain_leaf :: "string \<Rightarrow> bool" where
  "plain_leaf leaf = list_all plain_char leaf"

definition plain_selector_leaf :: "string \<Rightarrow> string option" where
  "plain_selector_leaf sel =
     (let leaf = take (length sel - 24) (drop 21 sel)
      in if sel = ''StringLiteral[value=/'' @ leaf @ ''$/]'' \<and> plain_leaf leaf then Some leaf
         else None)"

definition compile_selector ::
  "(string \<Rightarrow> error + (string \<Rightarrow> bool)) \<Rightarrow> string \<Rightarrow> error + (string \<Rightarrow> bool)" where
  "compile_selector engine sel =
     (case plain_selector_leaf sel of
        Some leaf \<Rightarrow> Inr (\<lambda>text. endsWith text leaf)
      | None \<Rightarrow> engine sel)"

fun replace_node :: "(string \<Rightarrow> bool) \<Rightarrow> (string \<Rightarrow> string) \<Rightarrow> node \<Rightarrow> string" where
  "replace_node matches replacer (OtherText src) = src"
| "replace_node matches replacer (StringLiteral src text) =
     (if matches text then replacer text else src)"

definition tsquery_replace ::
  "(string \<Rightarrow> error + (string \<Rightarrow> bool)) \<Rightarrow> (string \<Rightarrow> node list) \<Rightarrow> string \<Rightarrow> string
   \<Rightarrow> (string \<Rightarrow> string) \<Rightarrow> error + string" where
  "tsquery_replace engine parse source sel replacer =
     seq (compile_selector engine sel) (\<lambda>matches.
       Inr (concat (map (replace_node matches replacer) (parse source))))"

definition import_replacer :: "string \<Rightarrow> string \<Rightarrow> string \<Rightarrow> string" where
  "import_replacer oldImportPath newImportPath text =
     [CHR 0x27] @ js_replace text oldImportPath newImportPath @ [CHR 0x27]"

text \<open>Reading a file that is not there gives \<^verbatim>\<open>null\<close>, which the parser rejects.\<close>

definition updateImports ::
  "(string \<Rightarrow> error + (string \<Rightarrow> bool)) \<Rightarrow> (string \<Rightarrow> node list) \<Rightarrow> string \<Rightarrow> string
   \<Rightarrow> string \<Rightarrow> world \<Rightarrow> error + world" where
  "updateImports engine parse filePath oldImportPath newImportPath tree =
     (case tree_read tree filePath of
        None \<Rightarrow> Inl TypeError
      | Some fileContent \<Rightarrow>
          seq (tsquery_replace engine parse fileContent (endOfImportSelector oldImportPath)
                 (import_replacer oldImportPath newImportPath)) (\<lambda>newContent.
            Inr (tree_write filePath newContent tree)))"

section \<open>updateProjectPaths\<close>

definition validFilesEndingsToUpdate :: "string list" where
  "validFilesEndingsToUpdate = [''.js'', ''.jsx'', ''.ts'', ''.tsx'', ''.mjs'', ''.cjs'']"

text \<open>\<^verbatim>\<open>joinPathFragments\<close> on values read from a configuration: a fragment that is not a
  string is a TypeError of \<^verbatim>\<open>path.join\<close>.\<close>

fun join_with_root :: "string \<Rightarrow> jsval \<Rightarrow> error + string" where
  "join_with_root r (JStr s) = Inr (joinPathFragments [r, s])"
| "join_with_root r v = Inl TypeError"

text \<open>The two import leaves, as the generator derives them from the support files.\<close>

definition newImportLeafPath :: "string \<Rightarrow> string" where
  "newImportLeafPath newSupportFile =
     joinPathFragments
       [basename (dirname newSupportFile), basename_ext newSupportFile (extname newSupportFile)]"

definition oldImportLeafPath :: "string \<Rightarrow> string" where
  "oldImportLeafPath oldSupportFile =
     (let oldRelativeImportPath = basename_ext oldSupportFile (extname oldSupportFile)
      in if oldRelativeImportPath = ''index'' then basename (dirname oldSupportFile)
         else oldRelativeImportPath)"

definition default_support_note :: "string \<Rightarrow> string \<Rightarrow> string" where
  "default_support_note defaultSupportFile newSupportDefaultPath =
     ''NOTE: The default support file was found even though it'' @ [CHR 0x27]
     @ ''s not being used. Renaming to keep in sync with Cypress v10.''
     @ [CHR 0x0A] @ defaultSupportFile @ '' => '' @ newSupportDefaultPath"

text \<open>
  The visitor given to \<^verbatim>\<open>visitNotIgnoredFiles\<close>. \<open>leaves\<close> is
  \<^verbatim>\<open>shouldUpdateSupportFileImports\<close> with the two leaves, which are assigned exactly when
  the flag is set.
\<close>

definition newPath_of :: "string \<Rightarrow> string \<Rightarrow> string \<Rightarrow> string" where
  "newPath_of oldIntegrationFolder newIntegrationFolder path =
     (let fileName = basename path;
          newPath = js_replace path oldIntegrationFolder newIntegrationFolder
      in if js_includes fileName ''.spec.'' then js_replace newPath ''.spec.'' ''.cy.'' else newPath)"

definition visit_file ::
  "(string \<Rightarrow> error + (string \<Rightarrow> bool)) \<Rightarrow> (string \<Rightarrow> node list) \<Rightarrow> string \<Rightarrow> string
   \<Rightarrow> (string \<times> string) option \<Rightarrow> string \<Rightarrow> world \<Rightarrow> error + world" where
  "visit_file engine parse oldIntegrationFolder newIntegrationFolder leaves path tree =
     (if \<not> js_includes path oldIntegrationFolder then Inr tree
      else
        let newPath = newPath_of oldIntegrationFolder newIntegrationFolder path
        in seq (tree_rename path newPath tree) (\<lambda>tree'.
             case leaves of
               None \<Rightarrow> Inr tree'
             | Some (oldLeaf, newLeaf) \<Rightarrow>
                 if list_ex (\<lambda>e. endsWith path e) validFilesEndingsToUpdate
                 then updateImports engine parse newPath oldLeaf newLeaf tree'
                 else Inr tree'))"

text \<open>
  Modelled from the spec: \<^verbatim>\<open>visitNotIgnoredFiles\<close> of the devkit, "a lazy traversal
  respecting exclusion rules, finite, one-shot per call". \<open>visited\<close> is the sequence of
  paths the traversal hands to the visitor; an error of the visitor ends it.
\<close>

fun visitNotIgnoredFiles ::
  "string list \<Rightarrow> (string \<Rightarrow> world \<Rightarrow> error + world) \<Rightarrow> world \<Rightarrow> error + world" where
  "visitNotIgnoredFiles [] visitor tree = Inr tree"
| "visitNotIgnoredFiles (path # paths) visitor tree =
     seq (visitor path tree) (visitNotIgnoredFiles paths visitor)"

definition updateProjectPaths ::
  "(string \<Rightarrow> error + (string \<Rightarrow> bool)) \<Rightarrow> (string \<Rightarrow> node list) \<Rightarrow> string list
   \<Rightarrow> project_configuration \<Rightarrow> cypress_configs \<Rightarrow> world \<Rightarrow> error + world" where
  "updateProjectPaths engine parse visited projectConfig configs tree =
     (let integrationFolder = obj_get (e2e (cypressConfigTs configs)) ''integrationFolder'';
          supportFile = obj_get (e2e (cypressConfigTs configs)) ''supportFile''
      in
      seq (join_with_root (root projectConfig)
             (obj_get (cypressConfigJson configs) ''integrationFolder'')) (\<lambda>oldIntegrationFolder.
      seq (join_with_root (root projectConfig) integrationFolder) (\<lambda>newIntegrationFolder.
      seq (if truthy (obj_get (cypressConfigJson configs) ''supportFile'') then
             seq (join_with_root (root projectConfig)
                    (obj_get (cypressConfigJson configs) ''supportFile'')) (\<lambda>oldSupportFile.
             seq (join_with_root (root projectConfig) supportFile) (\<lambda>newSupportFile.
             seq (tree_rename oldSupportFile newSupportFile tree) (\<lambda>tree'.
               Inr (Some (oldImportLeafPath oldSupportFile, newImportLeafPath newSupportFile),
                    tree'))))
           else
             (case sourceRoot projectConfig of
                None \<Rightarrow> Inl TypeError
              | Some src \<Rightarrow>
                  let defaultSupportFile = joinPathFragments [src, ''support'', ''index.ts'']
                  in if tree_exists tree defaultSupportFile then
                       let newSupportDefaultPath = joinPathFragments [src, ''support'', ''e2e.ts'']
                       in seq (tree_rename defaultSupportFile newSupportDefaultPath
                                 (logger_info
                                    (default_support_note defaultSupportFile newSupportDefaultPath)
                                    tree))
                            (\<lambda>tree'. Inr (None, tree'))
                     else Inr (None, tree))) (\<lambda>(leaves, tree1).
      seq (visitNotIgnoredFiles visited
             (visit_file engine parse oldIntegrationFolder newIntegrationFolder leaves) tree1) (\<lambda>tree2.
        Inr (if tree_children tree2 oldIntegrationFolder = []
             then tree_delete oldIntegrationFolder tree2 else tree2))))))"

section \<open>writeNewConfig\<close>

text \<open>
  \<open>inspect\<close> is Node's \<^verbatim>\<open>util.inspect\<close>, the conversion of a value to source text.
  The written text is the template of the generator, with its three holes.

  The generator calls \<^verbatim>\<open>inspect\<close> with its default options, and so with the default depth
  of 2: the value given to it is at level 0, and an object or array at a level above 2
  that is not empty is printed as \<^verbatim>\<open>[Object]\<close> or \<^verbatim>\<open>[Array]\<close>, whatever it holds. \<open>elide\<close>
  puts one fixed object, or one fixed array, in the place of each of them;
  \<open>depth_limited\<close> says of a serializer that it prints a value and the elided value
  alike.
\<close>

fun elide :: "nat \<Rightarrow> jsval \<Rightarrow> jsval" where
  "elide level (JObj kvs) =
     (if kvs = [] then JObj []
      else if 2 < level then JObj [(''elided'', JNull)]
      else JObj (map (\<lambda>p. (fst p, elide (Suc level) (snd p))) kvs))"
| "elide level (JArr xs) =
     (if xs = [] then JArr []
      else if 2 < level then JArr [JNull]
      else JArr (map (elide (Suc level)) xs))"
| "elide level v = v"

definition depth_limited :: "(jsval \<Rightarrow> string) \<Rightarrow> bool" where
  "depth_limited inspect = (\<forall>v. inspect v = inspect (elide 0 v))"

definition convertedConfig :: "(jsval \<Rightarrow> string) \<Rightarrow> obj \<Rightarrow> string" where
  "convertedConfig inspect restOfConfig = trim (slice_1_m1 (trim (inspect (JObj restOfConfig))))"

definition config_template :: "string \<Rightarrow> string \<Rightarrow> string \<Rightarrow> string" where
  "config_template pluginImport converted setup =
     [CHR 0x0A]
     @ ''import { defineConfig } from '' @ [CHR 0x27] @ ''cypress'' @ [CHR 0x27] @ [CHR 0x0A]
     @ ''import { nxE2EPreset } from '' @ [CHR 0x27] @ ''@nrwl/cypress/plugins/cypress-preset''
     @ [CHR 0x27] @ '';'' @ [CHR 0x0A]
     @ pluginImport @ [CHR 0x0A]
     @ [CHR 0x0A]
     @ ''export default defineConfig({'' @ [CHR 0x0A]
     @ ''  e2e: {'' @ [CHR 0x0A]
     @ ''    ...nxE2EPreset(__dirname),'' @ [CHR 0x0A]
     @ ''    '' @ converted @ '','' @ [CHR 0x0A]
     @ ''    '' @ setup @ [CHR 0x0A]
     @ ''  }'' @ [CHR 0x0A]
     @ ''})'' @ [CHR 0x0A]"

definition pluginImport_of :: "jsval \<Rightarrow> string" where
  "pluginImport_of pluginsFile =
     (if truthy pluginsFile
      then ''import setupNodeEvents from '' @ [CHR 0x27] @ to_string pluginsFile @ [CHR 0x27] @ '';''
      else [])"

definition writeNewConfig ::
  "(jsval \<Rightarrow> string) \<Rightarrow> string \<Rightarrow> cypress_configs \<Rightarrow> world \<Rightarrow> world" where
  "writeNewConfig inspect pathTs configs tree =
     (let pluginsFile = with_default (obj_get (e2e (cypressConfigTs configs)) ''pluginsFile'')
                          (JBool False);
          restOfConfig = obj_rest [''pluginsFile'', ''integrationFolder''] (e2e (cypressConfigTs configs))
      in tree_write pathTs
           (config_template (pluginImport_of pluginsFile) (convertedConfig inspect restOfConfig)
              (if truthy pluginsFile then ''setupNodeEvents'' else []))
           tree)"

section \<open>The keys the generator names\<close>

text \<open>The four keys \<^verbatim>\<open>createNewCypressConfig\<close> takes out of the legacy configuration, the
  key it sets to a constant, and the key \<^verbatim>\<open>writeNewConfig\<close> turns into an import. Every
  other key of the legacy configuration is a passthrough key.\<close>

definition recognized_keys :: "string list" where
  "recognized_keys =
     [''baseUrl'', ''modifyObstructiveCode'', ''integrationFolder'', ''supportFile'',
      ''specPattern'', ''pluginsFile'']"

section \<open>An example project\<close>

text \<open>The project of the spec's scenario: an e2e application with its legacy
  configuration, one spec file and its support file.\<close>

definition example_project :: project_configuration where
  "example_project =
     \<lparr>root = ''apps/app-e2e'', sourceRoot = Some ''apps/app-e2e/src'',
      targets = Some [(''e2e'', \<lparr>executor = ''@nrwl/cypress:cypress'', options = None\<rparr>)]\<rparr>"

definition example_tree :: world where
  "example_tree =
     \<lparr>files =
        [(''apps/app-e2e/cypress.json'', ''{}''),
         (''apps/app-e2e/src/integration/a.spec.ts'',
          ''import '' @ [CHR 0x22] @ ''../support'' @ [CHR 0x22] @ '';''),
         (''apps/app-e2e/src/support/index.ts'', ''export {};'')],
      calls = [], logs = []\<rparr>"

definition example_config :: obj where
  "example_config =
     [(''integrationFolder'', JStr ''./src/integration''),
      (''supportFile'', JStr ''./src/support/index.ts''),
      (''baseUrl'', JStr ''http://x''),
      (''video'', JBool True),
      (''specPattern'', JStr ''**/*.feature''),
      (''pluginsFile'', JStr ''./src/plugins/index'')]"

definition example_config_unused :: obj where
  "example_config_unused =
     [(''integrationFolder'', JStr ''./src/integration''), (''supportFile'', JBool False)]"

text \<open>A reader that gives the parsed configuration for a file that is there.\<close>

definition example_readJson :: "obj \<Rightarrow> world \<Rightarrow> string \<Rightarrow> error + obj" where
  "example_readJson parsed tree path =
     (if tree_read tree path = None then Inl (FileSystemInconsistency path) else Inr parsed)"

text \<open>What the parser makes of the example's source texts: an import with a
  double-quoted literal, and one whose literal holds the old leaf twice.\<close>

definition example_parse :: "string \<Rightarrow> node list" where
  "example_parse source =
     (if source = ''import '' @ [CHR 0x22] @ ''../support'' @ [CHR 0x22] @ '';'' then
        [OtherText ''import '',
         StringLiteral ([CHR 0x22] @ ''../support'' @ [CHR 0x22]) ''../support'',
         OtherText '';'']
      else if source = ''import '' @ [CHR 0x27] @ ''../support-utils/support'' @ [CHR 0x27] @ '';'' then
        [OtherText ''import '',
         StringLiteral ([CHR 0x27] @ ''../support-utils/support'' @ [CHR 0x27])
           ''../support-utils/support'',
         OtherText '';'']
      else [OtherText source])"

text \<open>The examples have leaves of letters only, for which the query library is not
  asked: here it reads no selector.\<close>

definition example_engine :: "string \<Rightarrow> error + (string \<Rightarrow> bool)" where
  "example_engine sel = Inl SyntaxError"

text \<open>Two legacy configurations that differ in one passthrough value, three objects
  deep in \<^verbatim>\<open>env\<close>.\<close>

definition example_config_deep :: "string \<Rightarrow> obj" where
  "example_config_deep name =
     [(''integrationFolder'', JStr ''./src/integration''),
      (''supportFile'', JStr ''./src/support/index.ts''),
      (''env'', JObj [(''users'', JObj [(''admin'', JObj [(''name'', JStr name)])])])]"

text \<open>A stand-in for the serializer with its depth limit: everything on one line, and
  \<^verbatim>\<open>[Object]\<close> or \<^verbatim>\<open>[Array]\<close> above level 2.\<close>

fun example_inspect_at :: "nat \<Rightarrow> jsval \<Rightarrow> string" where
  "example_inspect_at level (JObj kvs) =
     (if kvs = [] then ''{}''
      else if 2 < level then ''[Object]''
      else ''{ '' @ intercalate '', ''
                     (map (\<lambda>p. fst p @ '': '' @ example_inspect_at (Suc level) (snd p)) kvs)
           @ '' }'')"
| "example_inspect_at level (JArr xs) =
     (if xs = [] then ''[]''
      else if 2 < level then ''[Array]''
      else ''[ '' @ intercalate '', '' (map (example_inspect_at (Suc level)) xs) @ '' ]'')"
| "example_inspect_at level (JStr s) = [CHR 0x27] @ s @ [CHR 0x27]"
| "example_inspect_at level v = to_string v"

text \<open>A stand-in for the serializer on the flat objects of the examples.\<close>

fun example_inspect_value :: "jsval \<Rightarrow> string" where
  "example_inspect_value (JStr s) = [CHR 0x27] @ s @ [CHR 0x27]"
| "example_inspect_value v = to_string v"

fun example_inspect :: "jsval \<Rightarrow> string" where
  "example_inspect (JObj kvs) =
     ''{ '' @ intercalate '', '' (map (\<lambda>p. fst p @ '': '' @ example_inspect_value (snd p)) kvs) @ '' }''"
| "example_inspect v = example_inspect_value v"

section \<open>Facts about objects and strings\<close>

lemma map_of_obj_set: "map_of (obj_set k v kvs) = (map_of kvs)(k \<mapsto> v)"
  by (induction kvs) (auto simp: fun_eq_iff)

lemma map_of_obj_rest: "map_of (obj_rest ks kvs) k = (if k \<in> set ks then None else map_of kvs k)"
  by (induction kvs) (auto simp: obj_rest_def)

lemma obj_get_obj_set: "obj_get (obj_set k v kvs) k' = (if k' = k then v else obj_get kvs k')"
  by (simp add: obj_get_def map_of_obj_set)

lemma set_obj_set: "set (obj_set k v kvs) \<subseteq> insert (k, v) (set kvs)"
  by (induction kvs) auto

lemma seq_Inr: "seq r f = Inr y \<longleftrightarrow> (\<exists>x. r = Inr x \<and> f x = Inr y)"
  by (cases r) (auto simp: seq_def)

lemma is_prefix_iff: "is_prefix p s \<longleftrightarrow> (\<exists>r. s = p @ r)"
  by (induction p s rule: is_prefix.induct) auto

lemma is_prefix_append: "is_prefix e (e @ a)"
  by (induction e) auto

lemma endsWith_append: "endsWith (a @ e) e"
  by (simp add: endsWith_def is_prefix_append)

lemma endsWith_iff: "endsWith s e \<longleftrightarrow> (\<exists>a. s = a @ e)"
proof -
  have "endsWith s e \<longleftrightarrow> (\<exists>r. rev s = rev e @ r)"
    by (simp add: endsWith_def is_prefix_iff)
  also have "\<dots> \<longleftrightarrow> (\<exists>a. s = a @ e)"
  proof
    assume "\<exists>r. rev s = rev e @ r"
    then obtain r where "rev s = rev e @ r" by blast
    then have "s = rev r @ e" by (metis rev_append rev_rev_ident)
    then show "\<exists>a. s = a @ e" by blast
  next
    assume "\<exists>a. s = a @ e"
    then obtain a where "s = a @ e" by blast
    then have "rev s = rev e @ rev a" by simp
    then show "\<exists>r. rev s = rev e @ r" by blast
  qed
  finally show ?thesis .
qed

lemma js_includes_iff: "js_includes s sub \<longleftrightarrow> (\<exists>a b. s = a @ sub @ b)"
proof (induction s)
  case Nil
  then show ?case by auto
next
  case (Cons c cs)
  show ?case
  proof
    assume "js_includes (c # cs) sub"
    then consider "is_prefix sub (c # cs)" | "js_includes cs sub" by auto
    then show "\<exists>a b. c # cs = a @ sub @ b"
    proof cases
      case 1
      then obtain r where "c # cs = sub @ r" by (auto simp: is_prefix_iff)
      then have "c # cs = [] @ sub @ r" by simp
      then show ?thesis by blast
    next
      case 2
      then obtain a b where "cs = a @ sub @ b" using Cons.IH by blast
      then have "c # cs = (c # a) @ sub @ b" by simp
      then show ?thesis by blast
    qed
  next
    assume "\<exists>a b. c # cs = a @ sub @ b"
    then obtain a b where ab: "c # cs = a @ sub @ b" by blast
    show "js_includes (c # cs) sub"
    proof (cases a)
      case Nil
      with ab have "is_prefix sub (c # cs)" by (auto simp: is_prefix_iff)
      then show ?thesis by simp
    next
      case (Cons a0 as)
      with ab have "cs = as @ sub @ b" by simp
      then show ?thesis using Cons.IH by auto
    qed
  qed
qed

text \<open>A text that holds \<open>s\<close> across a character that \<open>s\<close> does not have holds it on one
  side of that character.\<close>

lemma js_includes_separator:
  assumes inc: "js_includes (a @ c # b) s" and c: "c \<notin> set s"
  shows "js_includes a s \<or> js_includes b s"
proof -
  from inc obtain x y where eq: "a @ c # b = x @ s @ y" by (auto simp: js_includes_iff)
  then consider us where "a = x @ us" "us @ c # b = s @ y"
    | us where "a @ us = x" "c # b = us @ s @ y"
    by (auto simp: append_eq_append_conv2)
  then show ?thesis
  proof cases
    case 1
    from 1(2) consider vs where "us = s @ vs" | vs where "us @ vs = s" "c # b = vs @ y"
      by (auto simp: append_eq_append_conv2)
    then show ?thesis
    proof cases
      case 1
      then have "a = x @ s @ vs" using \<open>a = x @ us\<close> by simp
      then show ?thesis by (auto simp: js_includes_iff)
    next
      case 2
      show ?thesis
      proof (cases vs)
        case Nil
        then have "a = x @ s @ []" using 2 \<open>a = x @ us\<close> by simp
        then show ?thesis unfolding js_includes_iff by blast
      next
        case (Cons v vs')
        then have "c \<in> set s" using 2 by auto
        then show ?thesis using c by simp
      qed
    qed
  next
    case 2
    show ?thesis
    proof (cases us)
      case Nil
      then have "c # b = s @ y" using 2 by simp
      then have "s = []" using c by (cases s) auto
      then have "a = a @ s @ []" by simp
      then show ?thesis unfolding js_includes_iff by blast
    next
      case (Cons u us')
      then have "b = us' @ s @ y" using 2 by simp
      then show ?thesis unfolding js_includes_iff by blast
    qed
  qed
qed

lemma split_first_prefix: "split_first pat (pat @ r) = Some ([], r)"
proof (cases "pat @ r")
  case Nil
  then show ?thesis by simp
next
  case (Cons c cs)
  have "is_prefix pat (pat @ r)" by (rule is_prefix_append)
  then have "split_first pat (pat @ r) = Some ([], drop (length pat) (pat @ r))"
    unfolding Cons by simp
  then show ?thesis by simp
qed

lemma get_substitution_plain:
  "CHR ''$'' \<notin> set rep \<Longrightarrow> get_substitution m p a rep = rep"
  by (induction m p a rep rule: get_substitution.induct) auto

lemma split_first_None: "split_first pat s = None \<longleftrightarrow> \<not> js_includes s pat"
  by (induction s) (auto split: option.splits)

lemma js_replace_absent: "\<not> js_includes s pat \<Longrightarrow> js_replace s pat rep = s"
  by (simp add: js_replace_def split_first_None[THEN iffD2])

lemma split_first_append:
  assumes "\<forall>i < length a. \<not> is_prefix pat (drop i (a @ s))"
  shows "split_first pat (a @ s) =
           (case split_first pat s of None \<Rightarrow> None | Some (p, q) \<Rightarrow> Some (a @ p, q))"
  using assms
proof (induction a)
  case Nil
  then show ?case by (simp split: option.splits)
next
  case (Cons c cs)
  have 0: "\<not> is_prefix pat (c # cs @ s)" using Cons.prems by auto
  have "\<forall>i < length cs. \<not> is_prefix pat (drop i (cs @ s))"
  proof (intro allI impI)
    fix i assume "i < length cs"
    then have "Suc i < length (c # cs)" by simp
    then have "\<not> is_prefix pat (drop (Suc i) ((c # cs) @ s))" using Cons.prems by blast
    then show "\<not> is_prefix pat (drop i (cs @ s))" by simp
  qed
  from Cons.IH[OF this] 0 show ?case by (simp split: option.splits)
qed

text \<open>No occurrence of a pattern begins in a text that does not hold it and ends with a
  character the pattern does not have.\<close>

lemma no_occurrence_from_directory:
  assumes a: "a = [] \<or> last a \<notin> set pat" and n: "\<not> js_includes a pat"
  shows "\<forall>i < length a. \<not> is_prefix pat (drop i (a @ s))"
proof (intro allI impI notI)
  fix i assume i: "i < length a" and "is_prefix pat (drop i (a @ s))"
  then obtain r where r: "drop i a @ s = pat @ r" by (auto simp: is_prefix_iff)
  have ne: "drop i a \<noteq> []" using i by simp
  then have la: "last (drop i a) = last a" using i by simp
  from r consider us where "drop i a = pat @ us" | us where "drop i a @ us = pat"
    by (auto simp: append_eq_append_conv2)
  then show False
  proof cases
    case 1
    then have "a = take i a @ pat @ us" by (metis append_take_drop_id)
    then show False using n unfolding js_includes_iff by blast
  next
    case 2
    then have "last (drop i a) \<in> set pat" using ne by (metis last_in_set set_append UnCI)
    then show False using a la i by auto
  qed
qed

section \<open>Facts about paths\<close>

lemma takeWhile_stop:
  assumes "\<forall>x \<in> set xs. P x" and "\<not> P y"
  shows "takeWhile P (xs @ y # ys) = xs"
  using assms by (induction xs) auto

lemma dropWhile_stop:
  assumes "\<forall>x \<in> set xs. P x" and "\<not> P y"
  shows "dropWhile P (xs @ y # ys) = y # ys"
  using assms by (induction xs) auto

lemma takeWhile_all:
  assumes "\<forall>x \<in> set xs. P x"
  shows "takeWhile P xs = xs"
  using assms by (induction xs) auto

lemma last_segment_append:
  assumes "s \<noteq> []" and "CHR ''/'' \<notin> set s"
  shows "last_segment (a @ CHR ''/'' # s) = s"
proof -
  have ns: "\<forall>c \<in> set (rev s). \<not> is_slash c" using assms(2) by (auto simp: is_slash_def)
  obtain c cs where r: "rev s = c # cs" using assms(1) by (cases "rev s") auto
  then have "\<not> is_slash c" using ns by simp
  then have d: "dropWhile is_slash (rev s @ CHR ''/'' # rev a) = rev s @ CHR ''/'' # rev a"
    using r by simp
  have "takeWhile (\<lambda>c. \<not> is_slash c) (rev s @ CHR ''/'' # rev a) = rev s"
    using ns by (intro takeWhile_stop) (auto simp: is_slash_def)
  then show ?thesis using d by (simp add: last_segment_def)
qed

lemma last_segment_plain:
  assumes "s \<noteq> []" and "CHR ''/'' \<notin> set s"
  shows "last_segment s = s"
proof -
  have ns: "\<forall>c \<in> set (rev s). \<not> is_slash c" using assms(2) by (auto simp: is_slash_def)
  obtain c cs where r: "rev s = c # cs" using assms(1) by (cases "rev s") auto
  then have "\<not> is_slash c" using ns by simp
  then have d: "dropWhile is_slash (rev s) = rev s" using r by simp
  have t: "takeWhile (\<lambda>c. \<not> is_slash c) (rev s) = rev s"
    using ns by (rule takeWhile_all)
  show ?thesis unfolding last_segment_def d t by simp
qed

lemma last_segment_of_dir:
  assumes "q = [] \<or> last q = CHR ''/''" and "s \<noteq> []" and "CHR ''/'' \<notin> set s"
  shows "last_segment (q @ s) = s"
proof (cases "q = []")
  case True
  then show ?thesis using assms last_segment_plain by simp
next
  case False
  then have "q = butlast q @ [CHR ''/'']" using assms(1) by (metis append_butlast_last_id)
  then have e: "q @ s = butlast q @ CHR ''/'' # s" by (metis append.assoc append_Cons append_Nil)
  show ?thesis unfolding e by (rule last_segment_append[OF assms(2,3)])
qed

lemma extname_file:
  assumes seg: "last_segment p = name @ CHR ''.'' # ext"
    and "name \<noteq> []" and "name \<noteq> ''.''" and "CHR ''.'' \<notin> set ext"
  shows "extname p = CHR ''.'' # ext"
proof -
  have "takeWhile (\<lambda>c. c \<noteq> CHR ''.'') (rev ext @ CHR ''.'' # rev name) = rev ext"
    using assms(4) by (intro takeWhile_stop) auto
  then have t: "rev (takeWhile (\<lambda>c. c \<noteq> CHR ''.'') (rev (name @ CHR ''.'' # ext))) = ext" by simp
  have n2: "name @ CHR ''.'' # ext \<noteq> ''..''"
  proof
    assume "name @ CHR ''.'' # ext = ''..''"
    then show False using assms(2,3,4) by (cases name; cases ext) (auto simp: Cons_eq_append_conv)
  qed
  show ?thesis
    unfolding extname_def seg Let_def t using assms(2) n2 by simp
qed

lemma basename_ext_file:
  assumes seg: "last_segment p = name @ CHR ''.'' # ext" and "name \<noteq> []"
    and len: "length (name @ CHR ''.'' # ext) \<le> length p"
  shows "basename_ext p (CHR ''.'' # ext) = name"
proof -
  have e: "endsWith (name @ CHR ''.'' # ext) (CHR ''.'' # ext)" by (rule endsWith_append)
  have np: "CHR ''.'' # ext \<noteq> p"
  proof
    assume "CHR ''.'' # ext = p"
    then have "length p < length (name @ CHR ''.'' # ext)" using assms(2) by (cases name) auto
    then show False using len by simp
  qed
  show ?thesis
    unfolding basename_ext_def seg Let_def using e np len assms(2) by auto
qed

lemma dirname_file:
  assumes "d \<noteq> []" and "last d \<noteq> CHR ''/''" and "f \<noteq> []" and "CHR ''/'' \<notin> set f"
  shows "dirname (d @ CHR ''/'' # f) = d"
proof -
  obtain c cs where d: "d = c # cs" using assms(1) by (cases d) auto
  have tl: "tl (d @ CHR ''/'' # f) = cs @ CHR ''/'' # f" using d by simp
  obtain x xs where r: "rev f = x # xs" using assms(3) by (cases "rev f") auto
  have ns: "\<forall>c \<in> set (rev f). \<not> is_slash c" using assms(4) by (auto simp: is_slash_def)
  then have "\<not> is_slash x" using r by simp
  then have d1: "dropWhile is_slash (rev f @ CHR ''/'' # rev cs) = rev f @ CHR ''/'' # rev cs"
    using r by simp
  have d2: "dropWhile (\<lambda>c. \<not> is_slash c) (rev f @ CHR ''/'' # rev cs) = CHR ''/'' # rev cs"
    using ns by (intro dropWhile_stop) (auto simp: is_slash_def)
  have r': "dropWhile (\<lambda>c. \<not> is_slash c) (dropWhile is_slash (rev (tl (d @ CHR ''/'' # f))))
              = CHR ''/'' # rev cs"
    unfolding tl using d1 d2 by simp
  have notroot: "\<not> (is_slash (hd (d @ CHR ''/'' # f)) \<and> length (CHR ''/'' # rev cs) = 1)"
    using d assms(2) by (auto simp: is_slash_def)
  have "take (length (CHR ''/'' # rev cs)) (d @ CHR ''/'' # f) = d" using d by simp
  then show ?thesis
    unfolding dirname_def Let_def r' using notroot by (simp add: d)
qed

lemma split_slash_plain: "CHR ''/'' \<notin> set a \<Longrightarrow> split_slash a = [a]"
  by (induction a) (auto simp: is_slash_def)

lemma split_slash_append:
  "CHR ''/'' \<notin> set a \<Longrightarrow> split_slash (a @ CHR ''/'' # b) = a # split_slash b"
  by (induction a) (auto simp: is_slash_def)

lemma joinPathFragments_two:
  assumes "a \<noteq> []" "CHR ''/'' \<notin> set a" "a \<noteq> ''.''" "a \<noteq> ''..''"
    and "b \<noteq> []" "CHR ''/'' \<notin> set b" "b \<noteq> ''.''" "b \<noteq> ''..''"
  shows "joinPathFragments [a, b] = a @ CHR ''/'' # b"
proof -
  have s: "split_slash (a @ CHR ''/'' # b) = [a, b]"
    using assms by (simp add: split_slash_append split_slash_plain)
  have n: "normalize_segments True [] [a, b] = [a, b]" using assms by simp
  have h: "\<not> is_slash (hd (a @ CHR ''/'' # b))" using assms(1,2) by (cases a) (auto simp: is_slash_def)
  have "last b \<noteq> CHR ''/''" using assms(5,6) by (metis last_in_set)
  then have l: "\<not> is_slash (last (a @ CHR ''/'' # b))" using assms(5) by (simp add: is_slash_def)
  have "path_normalize (a @ CHR ''/'' # b) = a @ CHR ''/'' # b"
    unfolding path_normalize_def Let_def s using h l n assms(1) by simp
  then show ?thesis using assms(1,5) by (simp add: joinPathFragments_def path_join_def)
qed

section \<open>Facts about the tree\<close>

lemma tree_read_write: "tree_read (tree_write p content t) p = Some content"
  by (simp add: tree_read_def tree_write_def map_of_obj_set)

lemma tree_rename_Inr:
  assumes "tree_rename a b t = Inr t'"
  shows "calls t' = calls t @ [Rename a b] \<and> logs t' = logs t
       \<and> snd ` set (files t') \<subseteq> snd ` set (files t)"
proof -
  obtain content where c: "map_of (files t) a = Some content"
    using assms by (auto simp: tree_rename_def tree_read_def split: option.splits)
  then have m: "(a, content) \<in> set (files t)" by (rule map_of_SomeD)
  have t': "t' = t\<lparr>files := (if a = b then files t
                            else obj_set b content (filter (\<lambda>q. fst q \<noteq> a) (files t))),
                  calls := calls t @ [Rename a b]\<rparr>"
    using assms c by (simp add: tree_rename_def tree_read_def)
  have "set (obj_set b content (filter (\<lambda>q. fst q \<noteq> a) (files t)))
          \<subseteq> insert (b, content) (set (files t))"
    using set_obj_set[of b content "filter (\<lambda>q. fst q \<noteq> a) (files t)"] by auto
  then have "snd ` set (obj_set b content (filter (\<lambda>q. fst q \<noteq> a) (files t)))
          \<subseteq> snd ` set (files t)"
    using m by force
  then show ?thesis unfolding t' by simp
qed

lemma tree_delete_frame:
  "calls (tree_delete p t) = calls t @ [Delete p] \<and> logs (tree_delete p t) = logs t
   \<and> snd ` set (files (tree_delete p t)) \<subseteq> snd ` set (files t)"
  by (auto simp: tree_delete_def)

section \<open>Facts about the generator's functions\<close>

lemma createNewCypressConfig_Inr:
  assumes "readJson tree pathJson = Inr configJson" and "sourceRoot projectConfig = Some src"
  shows "createNewCypressConfig readJson tree projectConfig pathJson =
     Inr \<lparr>cypressConfigTs =
           \<lparr>baseUrl = (if truthy (obj_get configJson ''baseUrl'')
                       then Some (obj_get configJson ''baseUrl'') else None),
            e2e =
              obj_set ''integrationFolder''
                (if tree_exists tree (joinPathFragments [src, ''integration''])
                 then JStr ''src/e2e''
                 else with_default (obj_get configJson ''integrationFolder'') (JStr ''src/e2e''))
                (obj_set ''supportFile''
                   (if truthy (with_default (obj_get configJson ''supportFile'')
                                 (JStr ''src/support/e2e.ts''))
                       \<and> tree_exists tree (joinPathFragments [src, ''support'', ''index.ts''])
                    then JStr ''src/support/e2e.ts''
                    else with_default (obj_get configJson ''supportFile'')
                           (JStr ''src/support/e2e.ts''))
                   (obj_set ''specPattern'' (JStr ''src/e2e/**/*.cy.{js,jsx,ts,tsx}'')
                      (obj_rest
                         [''baseUrl'', ''modifyObstructiveCode'', ''integrationFolder'',
                          ''supportFile'']
                         configJson)))\<rparr>,
         cypressConfigJson = configJson\<rparr>"
  using assms by (simp add: createNewCypressConfig_def seq_def Let_def with_default_def)

lemma createNewCypressConfig_InrD:
  assumes "createNewCypressConfig readJson tree projectConfig pathJson = Inr configs"
  shows "\<exists>src. sourceRoot projectConfig = Some src
       \<and> readJson tree pathJson = Inr (cypressConfigJson configs)
       \<and> e2e (cypressConfigTs configs) =
              obj_set ''integrationFolder''
                (if tree_exists tree (joinPathFragments [src, ''integration''])
                 then JStr ''src/e2e''
                 else with_default (obj_get (cypressConfigJson configs) ''integrationFolder'')
                        (JStr ''src/e2e''))
                (obj_set ''supportFile''
                   (if truthy (with_default (obj_get (cypressConfigJson configs) ''supportFile'')
                                 (JStr ''src/support/e2e.ts''))
                       \<and> tree_exists tree (joinPathFragments [src, ''support'', ''index.ts''])
                    then JStr ''src/support/e2e.ts''
                    else with_default (obj_get (cypressConfigJson configs) ''supportFile'')
                           (JStr ''src/support/e2e.ts''))
                   (obj_set ''specPattern'' (JStr ''src/e2e/**/*.cy.{js,jsx,ts,tsx}'')
                      (obj_rest
                         [''baseUrl'', ''modifyObstructiveCode'', ''integrationFolder'',
                          ''supportFile'']
                         (cypressConfigJson configs))))"
proof -
  from assms obtain cfg where rj: "readJson tree pathJson = Inr cfg"
    by (auto simp: createNewCypressConfig_def seq_Inr)
  obtain src where src: "sourceRoot projectConfig = Some src"
    using assms rj
    by (cases "sourceRoot projectConfig") (auto simp: createNewCypressConfig_def seq_def)
  note eq = createNewCypressConfig_Inr[where readJson=readJson, OF rj src]
  from assms have "Inr configs = createNewCypressConfig readJson tree projectConfig pathJson"
    by simp
  then have c: "configs = projr (createNewCypressConfig readJson tree projectConfig pathJson)"
    by (metis sum.sel(2))
  have j: "cypressConfigJson configs = cfg" unfolding c eq by simp
  show ?thesis using src rj unfolding j unfolding c eq by simp
qed

lemma visit_file_no_leaves:
  "visit_file engine parse oldF newF None path t =
     (if js_includes path oldF then tree_rename path (newPath_of oldF newF path) t else Inr t)"
  by (cases "tree_rename path (newPath_of oldF newF path) t")
     (simp_all add: visit_file_def seq_def Let_def)

lemma visit_no_leaves:
  assumes "visitNotIgnoredFiles visited (visit_file engine parse oldF newF None) t = Inr t'"
  shows "calls t' = calls t @ map (\<lambda>p. Rename p (newPath_of oldF newF p))
                               (filter (\<lambda>p. js_includes p oldF) visited)
       \<and> logs t' = logs t
       \<and> snd ` set (files t') \<subseteq> snd ` set (files t)"
  using assms
proof (induction visited arbitrary: t)
  case Nil
  then show ?case by simp
next
  case (Cons p ps)
  from Cons.prems obtain t1 where
    step: "visit_file engine parse oldF newF None p t = Inr t1" and
    rest: "visitNotIgnoredFiles ps (visit_file engine parse oldF newF None) t1 = Inr t'"
    by (auto simp: seq_Inr)
  note ih = Cons.IH[OF rest]
  show ?case
  proof (cases "js_includes p oldF")
    case True
    then have "tree_rename p (newPath_of oldF newF p) t = Inr t1"
      using step by (simp add: visit_file_no_leaves)
    note r = tree_rename_Inr[OF this]
    have "snd ` set (files t') \<subseteq> snd ` set (files t)"
      using r ih by (blast intro: order_trans)
    moreover have "calls t' = calls t @ map (\<lambda>p. Rename p (newPath_of oldF newF p))
                               (filter (\<lambda>p. js_includes p oldF) (p # ps))"
      using r ih True by simp
    moreover have "logs t' = logs t" using r ih by simp
    ultimately show ?thesis by blast
  next
    case False
    then have "t1 = t" using step by (simp add: visit_file_no_leaves)
    with ih False show ?thesis by simp
  qed
qed

lemma config_template_plain:
  "config_template [] converted [] =
     ([CHR 0x0A]
      @ ''import { defineConfig } from '' @ [CHR 0x27] @ ''cypress'' @ [CHR 0x27] @ [CHR 0x0A]
      @ ''import { nxE2EPreset } from '' @ [CHR 0x27] @ ''@nrwl/cypress/plugins/cypress-preset''
      @ [CHR 0x27] @ '';'' @ [CHR 0x0A] @ [CHR 0x0A] @ [CHR 0x0A]
      @ ''export default defineConfig({'' @ [CHR 0x0A]
      @ ''  e2e: {'' @ [CHR 0x0A]
      @ ''    ...nxE2EPreset(__dirname),'' @ [CHR 0x0A] @ ''   '')
     @ CHR '' '' # converted
     @ CHR '','' # ([CHR 0x0A] @ ''    '' @ [CHR 0x0A] @ ''  }'' @ [CHR 0x0A] @ ''})'' @ [CHR 0x0A])"
  by (simp add: config_template_def)

lemma config_template_plain_no_setup:
  assumes "\<not> js_includes converted ''setupNodeEvents''"
  shows "\<not> js_includes (config_template [] converted []) ''setupNodeEvents''"
proof
  assume "js_includes (config_template [] converted []) ''setupNodeEvents''"
  then consider
      "js_includes ([CHR 0x0A]
      @ ''import { defineConfig } from '' @ [CHR 0x27] @ ''cypress'' @ [CHR 0x27] @ [CHR 0x0A]
      @ ''import { nxE2EPreset } from '' @ [CHR 0x27] @ ''@nrwl/cypress/plugins/cypress-preset''
      @ [CHR 0x27] @ '';'' @ [CHR 0x0A] @ [CHR 0x0A] @ [CHR 0x0A]
      @ ''export default defineConfig({'' @ [CHR 0x0A]
      @ ''  e2e: {'' @ [CHR 0x0A]
      @ ''    ...nxE2EPreset(__dirname),'' @ [CHR 0x0A] @ ''   '') ''setupNodeEvents''"
    | "js_includes (converted @ CHR '','' # ([CHR 0x0A] @ ''    '' @ [CHR 0x0A] @ ''  }''
         @ [CHR 0x0A] @ ''})'' @ [CHR 0x0A])) ''setupNodeEvents''"
    unfolding config_template_plain
    using js_includes_separator[where c = "CHR '' ''" and s = "''setupNodeEvents''"] by fastforce
  then show False
  proof cases
    case 1
    then show False by code_simp
  next
    case 2
    then have "js_includes converted ''setupNodeEvents''
      \<or> js_includes ([CHR 0x0A] @ ''    '' @ [CHR 0x0A] @ ''  }'' @ [CHR 0x0A] @ ''})'' @ [CHR 0x0A])
           ''setupNodeEvents''"
      using js_includes_separator[where c = "CHR '',''" and s = "''setupNodeEvents''"] by fastforce
    moreover have "\<not> js_includes ([CHR 0x0A] @ ''    '' @ [CHR 0x0A] @ ''  }'' @ [CHR 0x0A] @ ''})''
                       @ [CHR 0x0A]) ''setupNodeEvents''"
      by code_simp
    ultimately show False using assms by blast
  qed
qed

lemma truthy_with_default: "truthy (with_default v (JBool False)) = truthy v"
  by (cases v) (simp_all add: with_default_def)

lemma with_default_truthy: "truthy v \<Longrightarrow> with_default v d = v"
  by (cases v) (simp_all add: with_default_def)

lemma config_template_includes_import: "js_includes (config_template pluginImport converted setup) pluginImport"
  unfolding js_includes_iff config_template_def
  by (metis append.assoc)

lemma config_template_includes_converted: "js_includes (config_template pluginImport converted setup) converted"
  unfolding js_includes_iff config_template_def
  by (metis append.assoc)

lemma config_template_ends_with_setup:
  "endsWith (config_template pluginImport converted setup)
     (''    '' @ setup @ [CHR 0x0A] @ ''  }'' @ [CHR 0x0A] @ ''})'' @ [CHR 0x0A])"
  unfolding endsWith_iff config_template_def
  by (metis append.assoc)

lemma plain_selector_leaf_endOfImportSelector:
  "plain_leaf leaf \<Longrightarrow> plain_selector_leaf (endOfImportSelector leaf) = Some leaf"
  by (simp add: plain_selector_leaf_def endOfImportSelector_def Let_def)

lemma compile_selector_plain:
  "plain_leaf leaf \<Longrightarrow>
     compile_selector engine (endOfImportSelector leaf) = Inr (\<lambda>text. endsWith text leaf)"
  by (simp add: compile_selector_def plain_selector_leaf_endOfImportSelector)

lemma example_inspect_at_elide:
  "example_inspect_at level (elide level v) = example_inspect_at level v"
proof (induction v arbitrary: level)
  case (JArr xs)
  have m: "map (example_inspect_at (Suc level)) (map (elide (Suc level)) xs)
          = map (example_inspect_at (Suc level)) xs"
    using JArr.IH by simp
  have "intercalate '', '' (map (example_inspect_at (Suc level)) (map (elide (Suc level)) xs))
        = intercalate '', '' (map (example_inspect_at (Suc level)) xs)"
    by (simp only: m)
  then show ?case by simp
next
  case (JObj kvs)
  have "\<And>p. p \<in> set kvs \<Longrightarrow>
          example_inspect_at (Suc level) (elide (Suc level) (snd p))
            = example_inspect_at (Suc level) (snd p)"
  proof -
    fix p assume p: "p \<in> set kvs"
    obtain k v where kv: "p = (k, v)" by (cases p)
    then have "v \<in> Basic_BNFs.snds p" by simp
    from JObj.IH[OF p this] kv show
      "example_inspect_at (Suc level) (elide (Suc level) (snd p))
         = example_inspect_at (Suc level) (snd p)" by simp
  qed
  then have m: "map (\<lambda>p. fst p @ '': '' @ example_inspect_at (Suc level) (snd p))
               (map (\<lambda>p. (fst p, elide (Suc level) (snd p))) kvs)
          = map (\<lambda>p. fst p @ '': '' @ example_inspect_at (Suc level) (snd p)) kvs"
    by simp
  have "intercalate '', ''
          (map (\<lambda>p. fst p @ '': '' @ example_inspect_at (Suc level) (snd p))
             (map (\<lambda>p. (fst p, elide (Suc level) (snd p))) kvs))
        = intercalate '', ''
            (map (\<lambda>p. fst p @ '': '' @ example_inspect_at (Suc level) (snd p)) kvs)"
    by (simp only: m)
  then show ?case by simp
qed simp_all

lemma depth_limited_example: "depth_limited (example_inspect_at 0)"
  by (simp add: depth_limited_def example_inspect_at_elide)

section \<open>The eligibility check\<close>

text \<open>
  What \<^verbatim>\<open>verifyProjectForUpgrade\<close> does for every project, target name and tree. It
  reports \<^verbatim>\<open>shouldUpgrade\<close> exactly when the name is a target of the project's own, the
  installed runner's major version is at least 8, the target's executor is
  \<^verbatim>\<open>@nrwl/cypress:cypress\<close>, the old configuration file (the target's \<^verbatim>\<open>cypressConfig\<close>
  option, or \<^verbatim>\<open>cypress.json\<close> in the project's root) is in the tree, and
  \<^verbatim>\<open>cypress.config.ts\<close> in the project's root is not. Both returned paths are undefined
  exactly when the property read finds nothing under the name.
\<close>

theorem verifyProjectForUpgrade_shouldUpgrade_iff:
  "shouldUpgrade (fst (verifyProjectForUpgrade installedCypressVersion tree projectConfig target)) =
     (\<exists>tc. lookup_target projectConfig target = Own_target tc
         \<and> 8 \<le> installedCypressVersion
         \<and> executor tc = ''@nrwl/cypress:cypress''
         \<and> tree_exists tree
              (case declared_cypressConfig tc of
                 None \<Rightarrow> joinPathFragments [root projectConfig, ''cypress.json'']
               | Some c \<Rightarrow>
                   if c \<noteq> [] then c else joinPathFragments [root projectConfig, ''cypress.json''])
         \<and> \<not> tree_exists tree (joinPathFragments [root projectConfig, ''cypress.config.ts'']))
   \<and> (cypressConfigPathJson
          (fst (verifyProjectForUpgrade installedCypressVersion tree projectConfig target)) = None)
       = (lookup_target projectConfig target = No_property)
   \<and> (cypressConfigPathTs
          (fst (verifyProjectForUpgrade installedCypressVersion tree projectConfig target)) = None)
       = (lookup_target projectConfig target = No_property)"
  by (cases "lookup_target projectConfig target")
     (auto simp: verifyProjectForUpgrade_def Let_def split: option.splits)

theorem verifyProjectForUpgrade_shouldUpgrade_example:
  "shouldUpgrade (fst (verifyProjectForUpgrade 9 example_tree example_project ''e2e''))
   \<and> \<not> shouldUpgrade (fst (verifyProjectForUpgrade 7 example_tree example_project ''e2e''))
   \<and> cypressConfigPathJson (fst (verifyProjectForUpgrade 9 example_tree example_project ''lint'')) = None
   \<and> cypressConfigPathTs (fst (verifyProjectForUpgrade 9 example_tree example_project ''lint'')) = None"
proof -
  have none: "lookup_target example_project ''lint'' = No_property" by code_simp
  have yes: "shouldUpgrade (fst (verifyProjectForUpgrade 9 example_tree example_project ''e2e''))"
    by code_simp
  have "\<not> (8::int) \<le> 7" by simp
  then have no: "\<not> shouldUpgrade (fst (verifyProjectForUpgrade 7 example_tree example_project ''e2e''))"
    using verifyProjectForUpgrade_shouldUpgrade_iff[of 7 example_tree example_project "''e2e''"]
    by blast
  from verifyProjectForUpgrade_shouldUpgrade_iff[of 9 example_tree example_project "''lint''"]
    none yes no
  show ?thesis by blast
qed

text \<open>
  Claim C3. For every project, target and tree, the eligibility check reports eligible
  exactly when the named target is on the project, the installed runner's major version
  is at least 8, the target's executor is the legacy one, the old configuration file is
  in the tree and the new one is not; when the named target is not on the project, both
  returned paths are undefined. The guard for a target that is not there is a property
  read, which also finds what the targets object inherits: for the name \<^verbatim>\<open>constructor\<close>,
  which is no target of the example project, the check goes past the guard and returns
  both paths (and not eligible).
\<close>

theorem inherited_name_passes_target_guard:
  "targets example_project
     = Some [(''e2e'', \<lparr>executor = ''@nrwl/cypress:cypress'', options = None\<rparr>)]
   \<and> lookup_target example_project ''constructor'' = Inherited_property
   \<and> verifyProjectForUpgrade 9 example_tree example_project ''constructor''
       = (\<lparr>shouldUpgrade = False,
           cypressConfigPathJson = Some ''apps/app-e2e/cypress.json'',
           cypressConfigPathTs = Some ''apps/app-e2e/cypress.config.ts''\<rparr>,
          example_tree)"
  by code_simp

section \<open>The translation of the configuration\<close>

text \<open>
  Claim C2. For every legacy configuration and tree, the new configuration's
  \<^verbatim>\<open>e2e.supportFile\<close> is \<^verbatim>\<open>src/support/e2e.ts\<close> if the original \<^verbatim>\<open>supportFile\<close> (the
  legacy value, or the default \<^verbatim>\<open>src/support/e2e.ts\<close> of the destructuring when the key
  is not there) is truthy and \<^verbatim>\<open>support/index.ts\<close> under the source root is in the tree,
  and the original \<^verbatim>\<open>supportFile\<close> otherwise, \<^verbatim>\<open>false\<close> included; \<^verbatim>\<open>e2e.integrationFolder\<close>
  is \<^verbatim>\<open>src/e2e\<close> if \<^verbatim>\<open>integration\<close> under the source root is in the tree, and the
  original \<^verbatim>\<open>integrationFolder\<close> otherwise. The translation returns whenever the legacy
  file parses and the project has a source root.
\<close>

theorem createNewCypressConfig_supportFile_integrationFolder:
  assumes "readJson tree pathJson = Inr configJson" and "sourceRoot projectConfig = Some src"
  shows "\<exists>configs. createNewCypressConfig readJson tree projectConfig pathJson = Inr configs
     \<and> obj_get (e2e (cypressConfigTs configs)) ''supportFile'' =
         (let supportFile = with_default (obj_get configJson ''supportFile'')
                              (JStr ''src/support/e2e.ts'')
          in if truthy supportFile
                \<and> tree_exists tree (joinPathFragments [src, ''support'', ''index.ts''])
             then JStr ''src/support/e2e.ts'' else supportFile)
     \<and> obj_get (e2e (cypressConfigTs configs)) ''integrationFolder'' =
         (let integrationFolder = with_default (obj_get configJson ''integrationFolder'')
                                    (JStr ''src/e2e'')
          in if tree_exists tree (joinPathFragments [src, ''integration''])
             then JStr ''src/e2e'' else integrationFolder)"
  by (simp add: createNewCypressConfig_Inr[where readJson=readJson, OF assms] obj_get_obj_set Let_def)

theorem createNewCypressConfig_supportFile_integrationFolder_witness:
  "\<exists>configs.
     createNewCypressConfig (example_readJson example_config) example_tree example_project
       ''apps/app-e2e/cypress.json'' = Inr configs
     \<and> obj_get (e2e (cypressConfigTs configs)) ''supportFile'' = JStr ''src/support/e2e.ts''
     \<and> obj_get (e2e (cypressConfigTs configs)) ''integrationFolder'' = JStr ''src/e2e''"
proof -
  have r: "example_readJson example_config example_tree ''apps/app-e2e/cypress.json''
             = Inr example_config" by code_simp
  have s: "sourceRoot example_project = Some ''apps/app-e2e/src''" by code_simp
  have t: "truthy (with_default (obj_get example_config ''supportFile'') (JStr ''src/support/e2e.ts''))"
    by code_simp
  have x: "tree_exists example_tree (joinPathFragments [''apps/app-e2e/src'', ''support'', ''index.ts''])"
    by code_simp
  have y: "tree_exists example_tree (joinPathFragments [''apps/app-e2e/src'', ''integration''])"
    by code_simp
  from createNewCypressConfig_supportFile_integrationFolder
         [where readJson = "example_readJson example_config", OF r s]
  show ?thesis unfolding Let_def using t x y by simp
qed

text \<open>
  Claim C8. For every legacy configuration, the new configuration's \<^verbatim>\<open>e2e.specPattern\<close>
  is the fixed glob \<^verbatim>\<open>src/e2e/**/*.cy.{js,jsx,ts,tsx}\<close>, also when the legacy configuration
  has a \<^verbatim>\<open>specPattern\<close> of its own, and the new configuration has the top-level key
  \<^verbatim>\<open>baseUrl\<close> if and only if the legacy \<^verbatim>\<open>baseUrl\<close> is truthy (and then with that value).
\<close>

theorem specPattern_fixed_and_baseUrl_iff_truthy:
  assumes "readJson tree pathJson = Inr configJson" and "sourceRoot projectConfig = Some src"
  shows "\<exists>configs. createNewCypressConfig readJson tree projectConfig pathJson = Inr configs
     \<and> obj_get (e2e (cypressConfigTs configs)) ''specPattern''
         = JStr ''src/e2e/**/*.cy.{js,jsx,ts,tsx}''
     \<and> (baseUrl (cypressConfigTs configs) \<noteq> None) = truthy (obj_get configJson ''baseUrl'')
     \<and> (truthy (obj_get configJson ''baseUrl'') \<longrightarrow>
          baseUrl (cypressConfigTs configs) = Some (obj_get configJson ''baseUrl''))"
  by (simp add: createNewCypressConfig_Inr[where readJson=readJson, OF assms] obj_get_obj_set)

theorem specPattern_fixed_and_baseUrl_iff_truthy_witness:
  "obj_get example_config ''specPattern'' = JStr ''**/*.feature''
   \<and> (\<exists>configs.
     createNewCypressConfig (example_readJson example_config) example_tree example_project
       ''apps/app-e2e/cypress.json'' = Inr configs
     \<and> obj_get (e2e (cypressConfigTs configs)) ''specPattern''
         = JStr ''src/e2e/**/*.cy.{js,jsx,ts,tsx}''
     \<and> baseUrl (cypressConfigTs configs) = Some (JStr ''http://x''))"
proof -
  have r: "example_readJson example_config example_tree ''apps/app-e2e/cypress.json''
             = Inr example_config" by code_simp
  have s: "sourceRoot example_project = Some ''apps/app-e2e/src''" by code_simp
  have b: "obj_get example_config ''baseUrl'' = JStr ''http://x''" by code_simp
  have p: "obj_get example_config ''specPattern'' = JStr ''**/*.feature''" by code_simp
  from specPattern_fixed_and_baseUrl_iff_truthy
         [where readJson = "example_readJson example_config", OF r s]
  show ?thesis using b p by auto
qed

section \<open>The import leaves\<close>

text \<open>
  Claim C5, as the generator has it. For a support file \<^verbatim>\<open>.../parent/name.ext\<close>, the new
  import leaf is \<^verbatim>\<open>parent/name\<close> whatever the name, \<^verbatim>\<open>index\<close> included; the old import
  leaf is the name alone, and the parent directory when the name is \<^verbatim>\<open>index\<close> (it goes
  between the slashes of a regular expression, so it holds no slash). In particular an
  old support file \<^verbatim>\<open>.../support/index.ts\<close> gives the leaf \<^verbatim>\<open>support\<close>, and a new support
  file \<^verbatim>\<open>.../support/e2e.ts\<close> gives the leaf \<^verbatim>\<open>support/e2e\<close>.
\<close>

theorem import_leaf_derivation:
  assumes q: "q = [] \<or> last q = CHR ''/''"
    and parent: "parent \<noteq> []" "CHR ''/'' \<notin> set parent" "parent \<noteq> ''.''" "parent \<noteq> ''..''"
    and name: "name \<noteq> []" "CHR ''/'' \<notin> set name" "name \<noteq> ''.''" "name \<noteq> ''..''"
    and ext: "CHR ''/'' \<notin> set ext" "CHR ''.'' \<notin> set ext"
  shows "newImportLeafPath (q @ parent @ ''/'' @ name @ ''.'' @ ext) = parent @ ''/'' @ name
       \<and> oldImportLeafPath (q @ parent @ ''/'' @ name @ ''.'' @ ext)
           = (if name = ''index'' then parent else name)"
proof -
  let ?f = "name @ CHR ''.'' # ext"
  let ?p = "q @ parent @ ''/'' @ name @ ''.'' @ ext"
  have p: "?p = (q @ parent) @ CHR ''/'' # ?f" by simp
  have f: "?f \<noteq> []" "CHR ''/'' \<notin> set ?f" using name(2) ext(1) by auto
  have seg: "last_segment ?p = ?f"
    unfolding p by (rule last_segment_append[OF f])
  have ex: "extname ?p = CHR ''.'' # ext"
    by (rule extname_file[OF seg name(1) name(3) ext(2)])
  have base: "basename_ext ?p (CHR ''.'' # ext) = name"
    by (rule basename_ext_file[OF seg name(1)]) simp
  have "last (q @ parent) \<noteq> CHR ''/''" using parent(1,2) by (metis last_appendR last_in_set)
  then have dir: "dirname ?p = q @ parent"
    unfolding p using parent(1) f by (intro dirname_file) auto
  have pd: "basename (dirname ?p) = parent"
    unfolding dir basename_def by (rule last_segment_of_dir[OF q parent(1,2)])
  have j: "joinPathFragments [parent, name] = parent @ ''/'' @ name"
    using joinPathFragments_two[OF parent name] by simp
  show ?thesis
    unfolding newImportLeafPath_def oldImportLeafPath_def Let_def ex base pd j by simp
qed

theorem import_leaf_derivation_witness:
  "oldImportLeafPath ''apps/app-e2e/src/support/index.ts'' = ''support''
   \<and> newImportLeafPath ''apps/app-e2e/src/support/e2e.ts'' = ''support/e2e''"
  using import_leaf_derivation[of "''apps/app-e2e/src/''" "''support''" "''index''" "''ts''"]
        import_leaf_derivation[of "''apps/app-e2e/src/''" "''support''" "''e2e''" "''ts''"]
  by simp

text \<open>The claim as the spec has it gives the same rule for both leaves. It fails on an
  old support file that is not an index file, whose leaf has no parent directory, and on
  a new support file that is an index file, whose leaf keeps the name.\<close>

theorem import_leaf_counterexample:
  "oldImportLeafPath ''apps/app-e2e/src/support/commands.ts'' = ''commands''
   \<and> oldImportLeafPath ''apps/app-e2e/src/support/commands.ts'' \<noteq> ''support/commands''
   \<and> newImportLeafPath ''apps/app-e2e/src/support/index.ts'' = ''support/index''
   \<and> newImportLeafPath ''apps/app-e2e/src/support/index.ts'' \<noteq> ''support''"
  by code_simp

section \<open>The migration of the paths\<close>

text \<open>
  Claim C6. If the legacy configuration's \<^verbatim>\<open>supportFile\<close> is \<^verbatim>\<open>false\<close>, then the new
  configuration's \<^verbatim>\<open>e2e.supportFile\<close> is \<^verbatim>\<open>false\<close> too, and the migration of the paths
  rewrites no import: the calls it makes to the tree are the renaming of
  \<^verbatim>\<open>support/index.ts\<close> under the source root to \<^verbatim>\<open>support/e2e.ts\<close>, if that file is there
  (the only renaming of a support file), then one renaming for each visited file whose
  path holds the old integration folder, then at most the deletion of the old
  integration folder. It writes no file, and every content in the tree afterwards is a
  content that was there before.
\<close>

theorem unused_supportFile_only_renames:
  assumes create: "createNewCypressConfig readJson tree0 projectConfig pathJson = Inr configs"
    and unused: "obj_get (cypressConfigJson configs) ''supportFile'' = JBool False"
    and update: "updateProjectPaths engine parse visited projectConfig configs tree = Inr tree'"
  shows "obj_get (e2e (cypressConfigTs configs)) ''supportFile'' = JBool False
       \<and> (\<exists>src oldF newF cleanup.
             sourceRoot projectConfig = Some src
           \<and> join_with_root (root projectConfig)
                (obj_get (cypressConfigJson configs) ''integrationFolder'') = Inr oldF
           \<and> join_with_root (root projectConfig)
                (obj_get (e2e (cypressConfigTs configs)) ''integrationFolder'') = Inr newF
           \<and> set cleanup \<subseteq> {Delete oldF}
           \<and> calls tree' =
               calls tree
               @ (if tree_exists tree (joinPathFragments [src, ''support'', ''index.ts''])
                  then [Rename (joinPathFragments [src, ''support'', ''index.ts''])
                               (joinPathFragments [src, ''support'', ''e2e.ts''])]
                  else [])
               @ map (\<lambda>p. Rename p (newPath_of oldF newF p))
                   (filter (\<lambda>p. js_includes p oldF) visited)
               @ cleanup)
       \<and> snd ` set (files tree') \<subseteq> snd ` set (files tree)"
proof -
  from createNewCypressConfig_InrD[OF create] obtain src where
    src: "sourceRoot projectConfig = Some src" and
    e: "e2e (cypressConfigTs configs) =
              obj_set ''integrationFolder''
                (if tree_exists tree0 (joinPathFragments [src, ''integration''])
                 then JStr ''src/e2e''
                 else with_default (obj_get (cypressConfigJson configs) ''integrationFolder'')
                        (JStr ''src/e2e''))
                (obj_set ''supportFile''
                   (if truthy (with_default (obj_get (cypressConfigJson configs) ''supportFile'')
                                 (JStr ''src/support/e2e.ts''))
                       \<and> tree_exists tree0 (joinPathFragments [src, ''support'', ''index.ts''])
                    then JStr ''src/support/e2e.ts''
                    else with_default (obj_get (cypressConfigJson configs) ''supportFile'')
                           (JStr ''src/support/e2e.ts''))
                   (obj_set ''specPattern'' (JStr ''src/e2e/**/*.cy.{js,jsx,ts,tsx}'')
                      (obj_rest
                         [''baseUrl'', ''modifyObstructiveCode'', ''integrationFolder'',
                          ''supportFile'']
                         (cypressConfigJson configs))))"
    by blast
  have sf: "obj_get (e2e (cypressConfigTs configs)) ''supportFile'' = JBool False"
    unfolding e using unused by (simp add: obj_get_obj_set with_default_def)
  let ?def = "joinPathFragments [src, ''support'', ''index.ts'']"
  let ?new = "joinPathFragments [src, ''support'', ''e2e.ts'']"
  from update unused src obtain oldF newF tree1 tree2 where
    oldF: "join_with_root (root projectConfig)
             (obj_get (cypressConfigJson configs) ''integrationFolder'') = Inr oldF" and
    newF: "join_with_root (root projectConfig)
             (obj_get (e2e (cypressConfigTs configs)) ''integrationFolder'') = Inr newF" and
    support: "(if tree_exists tree ?def
               then seq (tree_rename ?def ?new (logger_info (default_support_note ?def ?new) tree))
                      (\<lambda>t. Inr (None :: (string \<times> string) option, t))
               else Inr (None, tree)) = Inr (None, tree1)" and
    visit: "visitNotIgnoredFiles visited (visit_file engine parse oldF newF None) tree1 = Inr tree2" and
    final: "tree' = (if tree_children tree2 oldF = [] then tree_delete oldF tree2 else tree2)"
    by (auto simp: updateProjectPaths_def Let_def seq_Inr split: if_splits)
  have s1: "calls tree1 = calls tree @ (if tree_exists tree ?def then [Rename ?def ?new] else [])
          \<and> snd ` set (files tree1) \<subseteq> snd ` set (files tree)"
  proof (cases "tree_exists tree ?def")
    case True
    then have "tree_rename ?def ?new (logger_info (default_support_note ?def ?new) tree) = Inr tree1"
      using support by (auto simp: seq_Inr)
    from tree_rename_Inr[OF this] True show ?thesis by (simp add: logger_info_def)
  next
    case False
    then show ?thesis using support by simp
  qed
  note s2 = visit_no_leaves[OF visit]
  define cleanup where "cleanup = (if tree_children tree2 oldF = [] then [Delete oldF] else [])"
  have s3: "calls tree' = calls tree2 @ cleanup
          \<and> snd ` set (files tree') \<subseteq> snd ` set (files tree2)"
    unfolding final cleanup_def using tree_delete_frame[of oldF tree2] by simp
  have c: "set cleanup \<subseteq> {Delete oldF}" by (auto simp: cleanup_def)
  have calls: "calls tree' =
               calls tree
               @ (if tree_exists tree ?def then [Rename ?def ?new] else [])
               @ map (\<lambda>p. Rename p (newPath_of oldF newF p))
                   (filter (\<lambda>p. js_includes p oldF) visited)
               @ cleanup"
    using s1 s2 s3 by simp
  have "snd ` set (files tree') \<subseteq> snd ` set (files tree)"
    using s1 s2 s3 by blast
  with sf src oldF newF c calls show ?thesis by blast
qed

theorem unused_supportFile_only_renames_witness:
  "obj_get (e2e (cypressConfigTs (projr
      (createNewCypressConfig (example_readJson example_config_unused) example_tree
         example_project ''apps/app-e2e/cypress.json'')))) ''supportFile'' = JBool False
   \<and> snd ` set (files (projr
        (updateProjectPaths example_engine example_parse (map fst (files example_tree)) example_project
           (projr (createNewCypressConfig (example_readJson example_config_unused) example_tree
                     example_project ''apps/app-e2e/cypress.json''))
           example_tree)))
       \<subseteq> snd ` set (files example_tree)
   \<and> calls (projr
        (updateProjectPaths example_engine example_parse (map fst (files example_tree)) example_project
           (projr (createNewCypressConfig (example_readJson example_config_unused) example_tree
                     example_project ''apps/app-e2e/cypress.json''))
           example_tree))
       = [Rename ''apps/app-e2e/src/support/index.ts'' ''apps/app-e2e/src/support/e2e.ts'',
          Rename ''apps/app-e2e/src/integration/a.spec.ts'' ''apps/app-e2e/src/e2e/a.cy.ts'',
          Delete ''apps/app-e2e/src/integration'']"
proof -
  let ?C = "projr (createNewCypressConfig (example_readJson example_config_unused) example_tree
                     example_project ''apps/app-e2e/cypress.json'')"
  let ?T = "projr (updateProjectPaths example_engine example_parse (map fst (files example_tree))
                     example_project ?C example_tree)"
  have c: "createNewCypressConfig (example_readJson example_config_unused) example_tree
             example_project ''apps/app-e2e/cypress.json'' = Inr ?C"
    by code_simp
  have n: "obj_get (cypressConfigJson ?C) ''supportFile'' = JBool False"
    by code_simp
  have u: "updateProjectPaths example_engine example_parse (map fst (files example_tree)) example_project ?C
             example_tree = Inr ?T"
    by code_simp
  have k: "calls ?T =
       [Rename ''apps/app-e2e/src/support/index.ts'' ''apps/app-e2e/src/support/e2e.ts'',
        Rename ''apps/app-e2e/src/integration/a.spec.ts'' ''apps/app-e2e/src/e2e/a.cy.ts'',
        Delete ''apps/app-e2e/src/integration'']"
    by code_simp
  from unused_supportFile_only_renames[OF c n u]
  have "obj_get (e2e (cypressConfigTs ?C)) ''supportFile'' = JBool False
      \<and> snd ` set (files ?T) \<subseteq> snd ` set (files example_tree)"
    by blast
  with k show ?thesis by blast
qed

text \<open>
  Claim C1. During the migration of the paths, a visited file whose path holds the old
  integration folder is renamed to the path with the old folder replaced by the new
  one and, if the file's base name holds the marker \<^verbatim>\<open>.spec.\<close>, with that marker in the
  file name replaced by \<^verbatim>\<open>.cy.\<close>; a visited file whose path does not hold the old folder
  is not renamed. The generator tests the base name for the marker, but then replaces
  the first \<^verbatim>\<open>.spec.\<close> of the whole path: for a spec file below a directory
  \<^verbatim>\<open>a.spec.d\<close> the directory becomes \<^verbatim>\<open>a.cy.d\<close> and the file keeps its name
  \<^verbatim>\<open>foo.spec.ts\<close>.
\<close>

theorem spec_marker_replaced_in_directory_name:
  "js_includes (basename ''apps/app-e2e/src/integration/a.spec.d/foo.spec.ts'') ''.spec.''
   \<and> newPath_of ''apps/app-e2e/src/integration'' ''apps/app-e2e/src/e2e''
       ''apps/app-e2e/src/integration/a.spec.d/foo.spec.ts''
       = ''apps/app-e2e/src/e2e/a.cy.d/foo.spec.ts''
   \<and> visit_file example_engine example_parse ''apps/app-e2e/src/integration'' ''apps/app-e2e/src/e2e'' None
       ''apps/app-e2e/src/integration/a.spec.d/foo.spec.ts''
       \<lparr>files = [(''apps/app-e2e/src/integration/a.spec.d/foo.spec.ts'', ''it()'')],
        calls = [], logs = []\<rparr>
       = Inr \<lparr>files = [(''apps/app-e2e/src/e2e/a.cy.d/foo.spec.ts'', ''it()'')],
              calls = [Rename ''apps/app-e2e/src/integration/a.spec.d/foo.spec.ts''
                              ''apps/app-e2e/src/e2e/a.cy.d/foo.spec.ts''],
              logs = []\<rparr>"
  by code_simp

text \<open>
  Where no directory on the way holds the marker, the renaming is the one asked for: a
  file \<^verbatim>\<open>dir/name\<close> below the old integration folder goes to \<^verbatim>\<open>dir/name\<close> below the new
  one, with the first \<^verbatim>\<open>.spec.\<close> of its name replaced by \<^verbatim>\<open>.cy.\<close>. And a path that does
  not hold the old integration folder is left alone, whatever the tree.
\<close>

theorem newPath_of_spec_file:
  assumes name: "name \<noteq> []" "CHR ''/'' \<notin> set name"
    and dir: "dir = [] \<or> last dir = CHR ''/''"
    and new: "CHR ''$'' \<notin> set newF"
    and nomarker: "\<not> js_includes (newF @ ''/'' @ dir) ''.spec.''"
  shows "newPath_of oldF newF (oldF @ ''/'' @ dir @ name)
           = newF @ ''/'' @ dir @ js_replace name ''.spec.'' ''.cy.''"
proof -
  let ?A = "newF @ ''/'' @ dir"
  have p: "oldF @ ''/'' @ dir @ name = (oldF @ ''/'' @ dir) @ name" by simp
  have q: "(oldF @ ''/'' @ dir) = [] \<or> last (oldF @ ''/'' @ dir) = CHR ''/''"
    using dir by auto
  have b: "basename (oldF @ ''/'' @ dir @ name) = name"
    unfolding basename_def p by (rule last_segment_of_dir[OF q name])
  have r0: "js_replace (oldF @ ''/'' @ dir @ name) oldF newF = ?A @ name"
    using split_first_prefix[of oldF "''/'' @ dir @ name"] new
    by (simp add: js_replace_def get_substitution_plain)
  have lastA: "?A = [] \<or> last ?A \<notin> set ''.spec.''" using dir by auto
  note occ = no_occurrence_from_directory[OF lastA nomarker, of name]
  have r1: "js_replace (?A @ name) ''.spec.'' ''.cy.'' = ?A @ js_replace name ''.spec.'' ''.cy.''"
    unfolding js_replace_def split_first_append[OF occ]
    by (simp split: option.splits)
  show ?thesis
  proof (cases "js_includes name ''.spec.''")
    case True
    then show ?thesis unfolding newPath_of_def Let_def b r0 using r1 by simp
  next
    case False
    then show ?thesis unfolding newPath_of_def Let_def b r0 by (simp add: js_replace_absent)
  qed
qed

theorem visit_file_outside_old_folder:
  assumes "\<not> js_includes path oldIntegrationFolder"
  shows "visit_file engine parse oldIntegrationFolder newIntegrationFolder leaves path tree = Inr tree"
  using assms by (simp add: visit_file_def)

section \<open>The rewriting of the imports\<close>

text \<open>
  Claim C10. \<^verbatim>\<open>updateImports\<close> writes every matched string literal back between single
  quotes, whatever its delimiters were: a literal whose value the selector matches, with
  any source text, is replaced by a quote, its value after the replacement, and a quote;
  the rest of the file is rewritten node by node. For a leaf of letters, digits, hyphens
  and underscores the matched literals are those whose value ends with the leaf, so that
  a double-quoted literal whose value ends with the leaf is converted.
\<close>

theorem updateImports_single_quotes:
  assumes "tree_read tree filePath = Some content"
    and "parse content = pre @ StringLiteral src text # post"
    and "compile_selector engine (endOfImportSelector oldImportPath) = Inr matches"
    and "matches text"
  shows "(\<exists>tree'. updateImports engine parse filePath oldImportPath newImportPath tree = Inr tree'
       \<and> tree_read tree' filePath =
           Some (concat (map (replace_node matches (import_replacer oldImportPath newImportPath))
                           pre)
                 @ [CHR 0x27] @ js_replace text oldImportPath newImportPath @ [CHR 0x27]
                 @ concat (map (replace_node matches (import_replacer oldImportPath newImportPath))
                             post)))
       \<and> (plain_leaf oldImportPath \<longrightarrow> matches = (\<lambda>value. endsWith value oldImportPath))"
proof -
  have "plain_leaf oldImportPath \<longrightarrow> matches = (\<lambda>value. endsWith value oldImportPath)"
    using assms(3) by (auto simp: compile_selector_plain)
  then show ?thesis
    using assms
    by (simp add: updateImports_def tsquery_replace_def seq_def tree_read_write
          import_replacer_def)
qed

theorem updateImports_single_quotes_witness:
  "\<exists>tree'. updateImports example_engine example_parse ''apps/app-e2e/src/integration/a.spec.ts''
               ''support'' ''support/e2e'' example_tree = Inr tree'
     \<and> tree_read tree' ''apps/app-e2e/src/integration/a.spec.ts''
         = Some (''import '' @ [CHR 0x27] @ ''../support/e2e'' @ [CHR 0x27] @ '';'')"
proof -
  have r: "tree_read example_tree ''apps/app-e2e/src/integration/a.spec.ts''
             = Some (''import '' @ [CHR 0x22] @ ''../support'' @ [CHR 0x22] @ '';'')"
    by code_simp
  have p: "example_parse (''import '' @ [CHR 0x22] @ ''../support'' @ [CHR 0x22] @ '';'')
             = [OtherText ''import ''] @
               StringLiteral ([CHR 0x22] @ ''../support'' @ [CHR 0x22]) ''../support''
               # [OtherText '';'']"
    by code_simp
  have l: "plain_leaf ''support''" by code_simp
  have c: "compile_selector example_engine (endOfImportSelector ''support'')
             = Inr (\<lambda>value. endsWith value ''support'')"
    by (rule compile_selector_plain[OF l])
  have e: "endsWith ''../support'' ''support''" by code_simp
  have j: "js_replace ''../support'' ''support'' ''support/e2e'' = ''../support/e2e''"
    by code_simp
  from updateImports_single_quotes
         [where parse = example_parse and engine = example_engine
            and newImportPath = "''support/e2e''"
            and matches = "\<lambda>value. endsWith value ''support''", OF r p c e]
  show ?thesis unfolding j by simp
qed

text \<open>
  Claim C4. \<^verbatim>\<open>updateImports\<close> rewrites the string literals whose value ends with the old
  leaf, and the result is the literal's value with the old leaf at its end replaced by
  the new leaf and everything before it unchanged. The generator matches the leaf at the
  end of the value, but \<^verbatim>\<open>replace\<close> then rewrites the leaf's first occurrence: in
  \<^verbatim>\<open>../support-utils/support\<close> it is the directory that is rewritten, not the end.
\<close>

theorem import_leaf_replaced_at_first_occurrence:
  "endsWith ''../support-utils/support'' ''support''
   \<and> import_replacer ''support'' ''support/e2e'' ''../support-utils/support''
       = [CHR 0x27] @ ''../support/e2e-utils/support'' @ [CHR 0x27]
   \<and> updateImports example_engine example_parse ''apps/app-e2e/src/e2e/b.cy.ts'' ''support'' ''support/e2e''
       \<lparr>files = [(''apps/app-e2e/src/e2e/b.cy.ts'',
                   ''import '' @ [CHR 0x27] @ ''../support-utils/support'' @ [CHR 0x27] @ '';'')],
        calls = [], logs = []\<rparr>
       = Inr \<lparr>files = [(''apps/app-e2e/src/e2e/b.cy.ts'',
                   ''import '' @ [CHR 0x27] @ ''../support/e2e-utils/support'' @ [CHR 0x27] @ '';'')],
              calls = [Write ''apps/app-e2e/src/e2e/b.cy.ts''
                         (''import '' @ [CHR 0x27] @ ''../support/e2e-utils/support'' @ [CHR 0x27]
                          @ '';'')],
              logs = []\<rparr>"
  by code_simp

text \<open>
  Where the old leaf stands in the value only at its end, the replacer does what is asked:
  the leaf is replaced and what stands before it is kept.
\<close>

theorem import_replacer_suffix:
  assumes "\<forall>i < length pre. \<not> is_prefix oldLeaf (drop i (pre @ oldLeaf))"
    and "CHR ''$'' \<notin> set newLeaf"
  shows "import_replacer oldLeaf newLeaf (pre @ oldLeaf) = [CHR 0x27] @ pre @ newLeaf @ [CHR 0x27]"
  unfolding import_replacer_def js_replace_def split_first_append[OF assms(1)]
  using split_first_prefix[of oldLeaf "[]"] assms(2) by (simp add: get_substitution_plain)

section \<open>The emitted configuration\<close>

text \<open>
  Claim C9. The object that \<^verbatim>\<open>writeNewConfig\<close> serializes into the \<^verbatim>\<open>e2e\<close> object of the
  emitted text has no key \<^verbatim>\<open>pluginsFile\<close> and no key \<^verbatim>\<open>integrationFolder\<close>. When
  \<^verbatim>\<open>e2e.pluginsFile\<close> is truthy, the text holds the import of that file as
  \<^verbatim>\<open>setupNodeEvents\<close>, and the emitted object ends with a \<^verbatim>\<open>setupNodeEvents\<close> entry. When
  it is falsy, the import line and the entry are empty, and the text does not hold
  \<^verbatim>\<open>setupNodeEvents\<close> at all unless the serialized configuration itself does.
\<close>

theorem writeNewConfig_plugins_wiring:
  "\<exists>text.
     tree_read (writeNewConfig inspect pathTs configs tree) pathTs = Some text
   \<and> map_of (obj_rest [''pluginsFile'', ''integrationFolder''] (e2e (cypressConfigTs configs)))
        ''pluginsFile'' = None
   \<and> map_of (obj_rest [''pluginsFile'', ''integrationFolder''] (e2e (cypressConfigTs configs)))
        ''integrationFolder'' = None
   \<and> (truthy (obj_get (e2e (cypressConfigTs configs)) ''pluginsFile'') \<longrightarrow>
        text = config_template
                 (''import setupNodeEvents from '' @ [CHR 0x27]
                  @ to_string (obj_get (e2e (cypressConfigTs configs)) ''pluginsFile'')
                  @ [CHR 0x27] @ '';'')
                 (convertedConfig inspect
                    (obj_rest [''pluginsFile'', ''integrationFolder''] (e2e (cypressConfigTs configs))))
                 ''setupNodeEvents''
        \<and> js_includes text
             (''import setupNodeEvents from '' @ [CHR 0x27]
              @ to_string (obj_get (e2e (cypressConfigTs configs)) ''pluginsFile'')
              @ [CHR 0x27] @ '';'')
        \<and> endsWith text
             (''    setupNodeEvents'' @ [CHR 0x0A] @ ''  }'' @ [CHR 0x0A] @ ''})'' @ [CHR 0x0A]))
   \<and> (\<not> truthy (obj_get (e2e (cypressConfigTs configs)) ''pluginsFile'') \<longrightarrow>
        text = config_template []
                 (convertedConfig inspect
                    (obj_rest [''pluginsFile'', ''integrationFolder''] (e2e (cypressConfigTs configs))))
                 []
        \<and> (\<not> js_includes
                (convertedConfig inspect
                   (obj_rest [''pluginsFile'', ''integrationFolder''] (e2e (cypressConfigTs configs))))
                ''setupNodeEvents''
            \<longrightarrow> \<not> js_includes text ''setupNodeEvents''))"
proof (cases "truthy (obj_get (e2e (cypressConfigTs configs)) ''pluginsFile'')")
  case True
  let ?imp = "''import setupNodeEvents from '' @ [CHR 0x27]
                  @ to_string (obj_get (e2e (cypressConfigTs configs)) ''pluginsFile'')
                  @ [CHR 0x27] @ '';''"
  let ?conv = "convertedConfig inspect
                    (obj_rest [''pluginsFile'', ''integrationFolder''] (e2e (cypressConfigTs configs)))"
  have w: "tree_read (writeNewConfig inspect pathTs configs tree) pathTs
             = Some (config_template ?imp ?conv ''setupNodeEvents'')"
    using True
    by (simp add: writeNewConfig_def Let_def tree_read_write truthy_with_default
          with_default_truthy pluginImport_of_def)
  have i: "js_includes (config_template ?imp ?conv ''setupNodeEvents'') ?imp"
    by (rule config_template_includes_import)
  have e: "endsWith (config_template ?imp ?conv ''setupNodeEvents'')
             (''    setupNodeEvents'' @ [CHR 0x0A] @ ''  }'' @ [CHR 0x0A] @ ''})'' @ [CHR 0x0A])"
    using config_template_ends_with_setup[of ?imp ?conv "''setupNodeEvents''"] by simp
  show ?thesis using True w i e by (simp add: map_of_obj_rest)
next
  case False
  let ?conv = "convertedConfig inspect
                    (obj_rest [''pluginsFile'', ''integrationFolder''] (e2e (cypressConfigTs configs)))"
  have w: "tree_read (writeNewConfig inspect pathTs configs tree) pathTs
             = Some (config_template [] ?conv [])"
    using False
    by (simp add: writeNewConfig_def Let_def tree_read_write truthy_with_default
          pluginImport_of_def)
  show ?thesis using False w config_template_plain_no_setup[of ?conv]
    by (simp add: map_of_obj_rest)
qed

theorem writeNewConfig_plugins_wiring_witness:
  "(\<exists>text.
      tree_read (writeNewConfig example_inspect ''apps/app-e2e/cypress.config.ts''
                   (projr (createNewCypressConfig (example_readJson example_config) example_tree
                             example_project ''apps/app-e2e/cypress.json''))
                   example_tree)
        ''apps/app-e2e/cypress.config.ts'' = Some text
    \<and> js_includes text
         (''import setupNodeEvents from '' @ [CHR 0x27] @ ''./src/plugins/index'' @ [CHR 0x27] @ '';'')
    \<and> endsWith text
         (''    setupNodeEvents'' @ [CHR 0x0A] @ ''  }'' @ [CHR 0x0A] @ ''})'' @ [CHR 0x0A]))
   \<and> (\<exists>text.
      tree_read (writeNewConfig example_inspect ''apps/app-e2e/cypress.config.ts''
                   (projr (createNewCypressConfig (example_readJson example_config_unused)
                             example_tree example_project ''apps/app-e2e/cypress.json''))
                   example_tree)
        ''apps/app-e2e/cypress.config.ts'' = Some text
    \<and> \<not> js_includes text ''setupNodeEvents'')"
proof -
  let ?C = "projr (createNewCypressConfig (example_readJson example_config) example_tree
                     example_project ''apps/app-e2e/cypress.json'')"
  let ?U = "projr (createNewCypressConfig (example_readJson example_config_unused) example_tree
                     example_project ''apps/app-e2e/cypress.json'')"
  have t: "truthy (obj_get (e2e (cypressConfigTs ?C)) ''pluginsFile'')" by code_simp
  have s: "to_string (obj_get (e2e (cypressConfigTs ?C)) ''pluginsFile'') = ''./src/plugins/index''"
    by code_simp
  have f: "\<not> truthy (obj_get (e2e (cypressConfigTs ?U)) ''pluginsFile'')" by code_simp
  have n: "\<not> js_includes
               (convertedConfig example_inspect
                  (obj_rest [''pluginsFile'', ''integrationFolder''] (e2e (cypressConfigTs ?U))))
               ''setupNodeEvents''"
    by code_simp
  from writeNewConfig_plugins_wiring
         [of example_inspect "''apps/app-e2e/cypress.config.ts''" ?C example_tree] t
  have a: "\<exists>text.
      tree_read (writeNewConfig example_inspect ''apps/app-e2e/cypress.config.ts'' ?C example_tree)
        ''apps/app-e2e/cypress.config.ts'' = Some text
    \<and> js_includes text
         (''import setupNodeEvents from '' @ [CHR 0x27] @ ''./src/plugins/index'' @ [CHR 0x27] @ '';'')
    \<and> endsWith text
         (''    setupNodeEvents'' @ [CHR 0x0A] @ ''  }'' @ [CHR 0x0A] @ ''})'' @ [CHR 0x0A])"
    unfolding s by blast
  from writeNewConfig_plugins_wiring
         [of example_inspect "''apps/app-e2e/cypress.config.ts''" ?U example_tree] f n
  have b: "\<exists>text.
      tree_read (writeNewConfig example_inspect ''apps/app-e2e/cypress.config.ts'' ?U example_tree)
        ''apps/app-e2e/cypress.config.ts'' = Some text
    \<and> \<not> js_includes text ''setupNodeEvents''"
    by blast
  from a b show ?thesis by blast
qed

text \<open>
  Translation, then emission, up to the serializer: every passthrough key of the legacy
  configuration (every key but the six the generator names) is a key of the new
  configuration's \<^verbatim>\<open>e2e\<close> object with its value unchanged, and is a key with that value
  of the object that \<^verbatim>\<open>writeNewConfig\<close> serializes; the serializer's text for that object,
  without its outer braces, is part of the emitted text, which is the generator's
  template around it.
\<close>

theorem passthrough_keys_survive:
  assumes create: "createNewCypressConfig readJson tree0 projectConfig pathJson = Inr configs"
    and passthrough: "k \<notin> set recognized_keys"
  shows "map_of (e2e (cypressConfigTs configs)) k = map_of (cypressConfigJson configs) k
       \<and> map_of (obj_rest [''pluginsFile'', ''integrationFolder''] (e2e (cypressConfigTs configs))) k
           = map_of (cypressConfigJson configs) k
       \<and> (\<exists>text.
            tree_read (writeNewConfig inspect pathTs configs tree) pathTs = Some text
          \<and> text =
              config_template
                (pluginImport_of
                   (with_default (obj_get (e2e (cypressConfigTs configs)) ''pluginsFile'')
                      (JBool False)))
                (convertedConfig inspect
                   (obj_rest [''pluginsFile'', ''integrationFolder''] (e2e (cypressConfigTs configs))))
                (if truthy (with_default (obj_get (e2e (cypressConfigTs configs)) ''pluginsFile'')
                              (JBool False))
                 then ''setupNodeEvents'' else [])
          \<and> js_includes text
               (convertedConfig inspect
                  (obj_rest [''pluginsFile'', ''integrationFolder'']
                     (e2e (cypressConfigTs configs)))))"
proof -
  from createNewCypressConfig_InrD[OF create] obtain src where
    e: "e2e (cypressConfigTs configs) =
              obj_set ''integrationFolder''
                (if tree_exists tree0 (joinPathFragments [src, ''integration''])
                 then JStr ''src/e2e''
                 else with_default (obj_get (cypressConfigJson configs) ''integrationFolder'')
                        (JStr ''src/e2e''))
                (obj_set ''supportFile''
                   (if truthy (with_default (obj_get (cypressConfigJson configs) ''supportFile'')
                                 (JStr ''src/support/e2e.ts''))
                       \<and> tree_exists tree0 (joinPathFragments [src, ''support'', ''index.ts''])
                    then JStr ''src/support/e2e.ts''
                    else with_default (obj_get (cypressConfigJson configs) ''supportFile'')
                           (JStr ''src/support/e2e.ts''))
                   (obj_set ''specPattern'' (JStr ''src/e2e/**/*.cy.{js,jsx,ts,tsx}'')
                      (obj_rest
                         [''baseUrl'', ''modifyObstructiveCode'', ''integrationFolder'',
                          ''supportFile'']
                         (cypressConfigJson configs))))"
    by blast
  have k: "k \<noteq> ''baseUrl''" "k \<noteq> ''modifyObstructiveCode''" "k \<noteq> ''integrationFolder''"
    "k \<noteq> ''supportFile''" "k \<noteq> ''specPattern''" "k \<noteq> ''pluginsFile''"
    using passthrough by (auto simp: recognized_keys_def)
  have m: "map_of (e2e (cypressConfigTs configs)) k = map_of (cypressConfigJson configs) k"
    unfolding e using k by (simp add: map_of_obj_set map_of_obj_rest)
  have r: "map_of (obj_rest [''pluginsFile'', ''integrationFolder''] (e2e (cypressConfigTs configs))) k
           = map_of (cypressConfigJson configs) k"
    using m k by (simp add: map_of_obj_rest)
  have w: "tree_read (writeNewConfig inspect pathTs configs tree) pathTs =
      Some (config_template
                (pluginImport_of
                   (with_default (obj_get (e2e (cypressConfigTs configs)) ''pluginsFile'')
                      (JBool False)))
                (convertedConfig inspect
                   (obj_rest [''pluginsFile'', ''integrationFolder''] (e2e (cypressConfigTs configs))))
                (if truthy (with_default (obj_get (e2e (cypressConfigTs configs)) ''pluginsFile'')
                              (JBool False))
                 then ''setupNodeEvents'' else []))"
    by (simp add: writeNewConfig_def Let_def tree_read_write)
  show ?thesis using m r w config_template_includes_converted by simp
qed

theorem passthrough_keys_survive_witness:
  "map_of example_config ''video'' = Some (JBool True)
   \<and> map_of (e2e (cypressConfigTs
        (projr (createNewCypressConfig (example_readJson example_config) example_tree
                  example_project ''apps/app-e2e/cypress.json'')))) ''video'' = Some (JBool True)
   \<and> js_includes
       (convertedConfig example_inspect
          (obj_rest [''pluginsFile'', ''integrationFolder'']
             (e2e (cypressConfigTs
                (projr (createNewCypressConfig (example_readJson example_config) example_tree
                          example_project ''apps/app-e2e/cypress.json''))))))
       ''video: true''
   \<and> (\<exists>text.
        tree_read (writeNewConfig example_inspect ''apps/app-e2e/cypress.config.ts''
                     (projr (createNewCypressConfig (example_readJson example_config) example_tree
                               example_project ''apps/app-e2e/cypress.json''))
                     example_tree)
          ''apps/app-e2e/cypress.config.ts'' = Some text
      \<and> js_includes text
           (convertedConfig example_inspect
              (obj_rest [''pluginsFile'', ''integrationFolder'']
                 (e2e (cypressConfigTs
                    (projr (createNewCypressConfig (example_readJson example_config) example_tree
                              example_project ''apps/app-e2e/cypress.json'')))))))"
proof -
  let ?C = "projr (createNewCypressConfig (example_readJson example_config) example_tree
                     example_project ''apps/app-e2e/cypress.json'')"
  have c: "createNewCypressConfig (example_readJson example_config) example_tree
             example_project ''apps/app-e2e/cypress.json'' = Inr ?C"
    by code_simp
  have k: "''video'' \<notin> set recognized_keys" by code_simp
  have j: "cypressConfigJson ?C = example_config" by code_simp
  have v: "map_of example_config ''video'' = Some (JBool True)" by code_simp
  have i: "js_includes
       (convertedConfig example_inspect
          (obj_rest [''pluginsFile'', ''integrationFolder''] (e2e (cypressConfigTs ?C))))
       ''video: true''"
    by code_simp
  from passthrough_keys_survive
         [where readJson = "example_readJson example_config" and inspect = example_inspect
            and pathTs = "''apps/app-e2e/cypress.config.ts''" and tree = example_tree,
          OF c k]
  show ?thesis using v i unfolding j by simp
qed

text \<open>
  Claim C7. Translation, then emission: every passthrough key of the legacy configuration
  survives translation into the new configuration's \<^verbatim>\<open>e2e\<close> object with its value
  unchanged and appears unchanged in the emitted source text. The generator serializes
  with the serializer's default depth, so a passthrough value is emitted only down to
  that depth: two legacy configurations whose \<^verbatim>\<open>env.users.admin\<close> objects differ both
  keep their \<^verbatim>\<open>env\<close> in \<^verbatim>\<open>e2e\<close> unchanged, and give the same emitted text, whatever the
  depth-limited serializer.
\<close>

theorem deep_passthrough_value_not_emitted:
  assumes "depth_limited inspect"
  shows "obj_get (example_config_deep ''alice'') ''env'' \<noteq> obj_get (example_config_deep ''bob'') ''env''
       \<and> obj_get (e2e (cypressConfigTs (projr
             (createNewCypressConfig (example_readJson (example_config_deep ''alice'')) example_tree
                example_project ''apps/app-e2e/cypress.json'')))) ''env''
           = obj_get (example_config_deep ''alice'') ''env''
       \<and> obj_get (e2e (cypressConfigTs (projr
             (createNewCypressConfig (example_readJson (example_config_deep ''bob'')) example_tree
                example_project ''apps/app-e2e/cypress.json'')))) ''env''
           = obj_get (example_config_deep ''bob'') ''env''
       \<and> tree_read
             (writeNewConfig inspect pathTs
                (projr (createNewCypressConfig (example_readJson (example_config_deep ''alice''))
                          example_tree example_project ''apps/app-e2e/cypress.json''))
                tree) pathTs
           = tree_read
               (writeNewConfig inspect pathTs
                  (projr (createNewCypressConfig (example_readJson (example_config_deep ''bob''))
                            example_tree example_project ''apps/app-e2e/cypress.json''))
                  tree) pathTs"
proof -
  let ?X = "projr (createNewCypressConfig (example_readJson (example_config_deep ''alice''))
                     example_tree example_project ''apps/app-e2e/cypress.json'')"
  let ?Y = "projr (createNewCypressConfig (example_readJson (example_config_deep ''bob''))
                     example_tree example_project ''apps/app-e2e/cypress.json'')"
  let ?rx = "obj_rest [''pluginsFile'', ''integrationFolder''] (e2e (cypressConfigTs ?X))"
  let ?ry = "obj_rest [''pluginsFile'', ''integrationFolder''] (e2e (cypressConfigTs ?Y))"
  have d: "obj_get (example_config_deep ''alice'') ''env'' \<noteq> obj_get (example_config_deep ''bob'') ''env''"
    by code_simp
  have sx: "obj_get (e2e (cypressConfigTs ?X)) ''env'' = obj_get (example_config_deep ''alice'') ''env''"
    by code_simp
  have sy: "obj_get (e2e (cypressConfigTs ?Y)) ''env'' = obj_get (example_config_deep ''bob'') ''env''"
    by code_simp
  have p: "obj_get (e2e (cypressConfigTs ?X)) ''pluginsFile''
             = obj_get (e2e (cypressConfigTs ?Y)) ''pluginsFile''"
    by code_simp
  have e: "elide 0 (JObj ?rx) = elide 0 (JObj ?ry)" by code_simp
  have "inspect (JObj ?rx) = inspect (elide 0 (JObj ?rx))"
    using assms unfolding depth_limited_def by blast
  also have "\<dots> = inspect (elide 0 (JObj ?ry))" unfolding e ..
  also have "\<dots> = inspect (JObj ?ry)"
    using assms unfolding depth_limited_def by metis
  finally have c: "convertedConfig inspect ?rx = convertedConfig inspect ?ry"
    by (simp add: convertedConfig_def)
  have "tree_read (writeNewConfig inspect pathTs ?X tree) pathTs
          = tree_read (writeNewConfig inspect pathTs ?Y tree) pathTs"
    unfolding writeNewConfig_def Let_def tree_read_write p c ..
  with d sx sy show ?thesis by blast
qed

theorem deep_passthrough_value_not_emitted_witness:
  "tree_read
     (writeNewConfig (example_inspect_at 0) ''apps/app-e2e/cypress.config.ts''
        (projr (createNewCypressConfig (example_readJson (example_config_deep ''alice''))
                  example_tree example_project ''apps/app-e2e/cypress.json''))
        example_tree) ''apps/app-e2e/cypress.config.ts''
   = tree_read
       (writeNewConfig (example_inspect_at 0) ''apps/app-e2e/cypress.config.ts''
          (projr (createNewCypressConfig (example_readJson (example_config_deep ''bob''))
                    example_tree example_project ''apps/app-e2e/cypress.json''))
          example_tree) ''apps/app-e2e/cypress.config.ts''
   \<and> js_includes
        (the (tree_read
           (writeNewConfig (example_inspect_at 0) ''apps/app-e2e/cypress.config.ts''
              (projr (createNewCypressConfig (example_readJson (example_config_deep ''alice''))
                        example_tree example_project ''apps/app-e2e/cypress.json''))
              example_tree) ''apps/app-e2e/cypress.config.ts''))
        ''env: { users: { admin: [Object] } }''
   \<and> \<not> js_includes
        (the (tree_read
           (writeNewConfig (example_inspect_at 0) ''apps/app-e2e/cypress.config.ts''
              (projr (createNewCypressConfig (example_readJson (example_config_deep ''alice''))
                        example_tree example_project ''apps/app-e2e/cypress.json''))
              example_tree) ''apps/app-e2e/cypress.config.ts''))
        ''alice''"
proof -
  have i: "js_includes
        (the (tree_read
           (writeNewConfig (example_inspect_at 0) ''apps/app-e2e/cypress.config.ts''
              (projr (createNewCypressConfig (example_readJson (example_config_deep ''alice''))
                        example_tree example_project ''apps/app-e2e/cypress.json''))
              example_tree) ''apps/app-e2e/cypress.config.ts''))
        ''env: { users: { admin: [Object] } }''"
    by code_simp
  have n: "\<not> js_includes
        (the (tree_read
           (writeNewConfig (example_inspect_at 0) ''apps/app-e2e/cypress.config.ts''
              (projr (createNewCypressConfig (example_readJson (example_config_deep ''alice''))
                        example_tree example_project ''apps/app-e2e/cypress.json''))
              example_tree) ''apps/app-e2e/cypress.config.ts''))
        ''alice''"
    by code_simp
  from deep_passthrough_value_not_emitted
         [OF depth_limited_example, of "''apps/app-e2e/cypress.config.ts''" example_tree]
  show ?thesis using i n by blast
qed

text \<open>The top-level \<^verbatim>\<open>baseUrl\<close> of the new configuration is no part of what
  \<^verbatim>\<open>writeNewConfig\<close> writes: only the \<^verbatim>\<open>e2e\<close> object is serialized.\<close>

theorem writeNewConfig_ignores_baseUrl:
  "writeNewConfig inspect pathTs
     (configs\<lparr>cypressConfigTs := (cypressConfigTs configs)\<lparr>baseUrl := b\<rparr>\<rparr>) tree
   = writeNewConfig inspect pathTs configs tree"
  by (simp add: writeNewConfig_def)

end
